theory Spec2Isabelle
  imports Complex_Main
begin

section \<open>Tensors, storage and the random source\<close>

text \<open>
  The notebook \<^verbatim>\<open>ppo_continuous_action_isaacgym.ipynb\<close> defines three classes,
  \<^verbatim>\<open>Agent\<close>, \<^verbatim>\<open>SampledAgent\<close> and \<^verbatim>\<open>BayesianAgent\<close>, on top of a tensor library.
  A parameter tensor is a shape and its elements in row-major order; it lives in a store
  under an address, so that two objects holding the same address share the storage.
  Floating-point numbers are idealised as reals.
\<close>

type_synonym addr = nat

record tensor =
  shape :: "nat list"
  data :: "real list"

text \<open>
  Observations, activations and actions are batches: tensors of rank two, kept as the list
  of their rows together with the number of columns (which a batch of no rows still has).
\<close>

record mat =
  ncols :: nat
  rows :: "real list list"

abbreviation nrows :: "mat \<Rightarrow> nat" where
  "nrows m \<equiv> length (rows m)"

datatype error = IndexError | TypeError | RuntimeError | ValueError | AssertionError string

text \<open>
  The state of the interpreter as far as the classes see it: the tensor store, the next free
  address, and the pseudorandom source as the stream of the numbers it will produce. Every
  theorem holds for every stream.
\<close>

record state =
  heap :: "addr \<Rightarrow> tensor"
  next_addr :: addr
  rng :: "nat \<Rightarrow> real"

definition alloc :: "tensor \<Rightarrow> state \<Rightarrow> addr \<times> state" where
  "alloc t st =
     (next_addr st, st\<lparr>heap := (heap st)(next_addr st := t), next_addr := Suc (next_addr st)\<rparr>)"

definition draw :: "nat \<Rightarrow> state \<Rightarrow> real list \<times> state" where
  "draw n st = (map (rng st) [0..<n], st\<lparr>rng := (\<lambda>i. rng st (i + n))\<rparr>)"

definition zeros :: "nat list \<Rightarrow> tensor" where
  "zeros shp = \<lparr>shape = shp, data = replicate (prod_list shp) 0\<rparr>"

section \<open>Linear layers and their initialisation\<close>

record linear =
  in_features :: nat
  out_features :: nat
  weight :: addr
  bias :: addr

text \<open>
  \<^verbatim>\<open>nn.Linear(in_features, out_features)\<close>: a weight of shape (out, in) and a bias of shape
  (out), each in storage of its own, filled by the library's random initialiser (the values
  are taken from the random source).
\<close>

definition nn_Linear :: "nat \<Rightarrow> nat \<Rightarrow> state \<Rightarrow> linear \<times> state" where
  "nn_Linear n_in n_out st =
     (let (w, st1) = draw (n_out * n_in) st;
          (wa, st2) = alloc \<lparr>shape = [n_out, n_in], data = w\<rparr> st1;
          (b, st3) = draw n_out st2;
          (ba, st4) = alloc \<lparr>shape = [n_out], data = b\<rparr> st3
      in (\<lparr>in_features = n_in, out_features = n_out, weight = wa, bias = ba\<rparr>, st4))"

text \<open>
  \<^verbatim>\<open>layer_init(layer, std, bias_const)\<close> overwrites the layer's weight in place with
  \<^verbatim>\<open>std\<close> times an orthogonal matrix (its entries taken from the random source) and its
  bias with the constant, and returns the same layer. The layer is always a new
  \<^verbatim>\<open>nn.Linear\<close>, whose weight has the rank two that the initialiser asks for.
\<close>

definition layer_init :: "linear \<Rightarrow> real \<Rightarrow> real \<Rightarrow> state \<Rightarrow> linear \<times> state" where
  "layer_init layer std bias_const st =
     (let w = heap st (weight layer);
          (q, st1) = draw (length (data w)) st;
          st2 = st1\<lparr>heap := (heap st1)(weight layer := w\<lparr>data := map (\<lambda>e. std * e) q\<rparr>)\<rparr>;
          b = heap st2 (bias layer);
          st3 = st2\<lparr>heap := (heap st2)(bias layer := b\<lparr>data := map (\<lambda>_. bias_const) (data b)\<rparr>)\<rparr>
      in (layer, st3))"

text \<open>The expression \<^verbatim>\<open>layer_init(nn.Linear(i, o), std)\<close>, as the constructors write it.\<close>

definition layer_init_Linear :: "nat \<Rightarrow> nat \<Rightarrow> real \<Rightarrow> state \<Rightarrow> linear \<times> state" where
  "layer_init_Linear n_in n_out std st =
     (let (layer, st1) = nn_Linear n_in n_out st in layer_init layer std 0 st1)"

section \<open>Environments\<close>

datatype space = Box "nat list" | Discrete nat | MultiDiscrete "nat list" | MultiBinary nat

fun space_shape :: "space \<Rightarrow> nat list" where
  "space_shape (Box shp) = shp"
| "space_shape (Discrete n) = []"
| "space_shape (MultiDiscrete nvec) = [length nvec]"
| "space_shape (MultiBinary n) = [n]"

record envs =
  action_space :: space
  observation_space :: space
  single_action_space :: space
  single_observation_space :: space

text \<open>
  \<^verbatim>\<open>np.prod(shape)\<close> and \<^verbatim>\<open>np.array(shape).prod()\<close>, used as a layer size. The product of
  an empty shape is the float 1.0, which the tensor library refuses as a size with a
  TypeError; of a nonempty shape it is the integer product.
\<close>

definition np_prod :: "nat list \<Rightarrow> error + nat" where
  "np_prod shp = (if shp = [] then Inl TypeError else Inr (prod_list shp))"

section \<open>The deterministic agent\<close>

datatype layer = Linear linear | Tanh

record 'l networks =
  critic :: "'l list"
  actor_mean :: "'l list"
  actor_logstd :: addr

type_synonym agent = "layer networks"

definition Agent_init :: "envs \<Rightarrow> state \<Rightarrow> error + (agent \<times> state)" where
  "Agent_init env st =
     (case np_prod (space_shape (single_observation_space env)) of
        Inl e \<Rightarrow> Inl e
      | Inr obs \<Rightarrow>
          let (c1, st1) = layer_init_Linear obs 256 (sqrt 2) st;
              (c2, st2) = layer_init_Linear 256 256 (sqrt 2) st1;
              (c3, st3) = layer_init_Linear 256 1 1 st2;
              (a1, st4) = layer_init_Linear obs 256 (sqrt 2) st3;
              (a2, st5) = layer_init_Linear 256 256 (sqrt 2) st4
          in (case np_prod (space_shape (single_action_space env)) of
                Inl e \<Rightarrow> Inl e
              | Inr act \<Rightarrow>
                  let (a3, st6) = layer_init_Linear 256 act (1 / 100) st5;
                      (ls, st7) = alloc (zeros [1, act]) st6
                  in Inr (\<lparr>critic = [Linear c1, Tanh, Linear c2, Tanh, Linear c3],
                           actor_mean = [Linear a1, Tanh, Linear a2, Tanh, Linear a3],
                           actor_logstd = ls\<rparr>, st7)))"

text \<open>
  \<^verbatim>\<open>SampledAgent(envs, critic, actor_mean, actor_logstd)\<close> runs the constructor of
  \<^verbatim>\<open>Agent\<close> and then replaces the three attributes by its arguments.
\<close>

definition SampledAgent_init ::
  "envs \<Rightarrow> layer list \<Rightarrow> layer list \<Rightarrow> addr \<Rightarrow> state \<Rightarrow> error + (agent \<times> state)" where
  "SampledAgent_init env crit act_mean logstd st =
     (case Agent_init env st of
        Inl e \<Rightarrow> Inl e
      | Inr (self, st1) \<Rightarrow>
          Inr (self\<lparr>critic := crit, actor_mean := act_mean, actor_logstd := logstd\<rparr>, st1))"

section \<open>The forward pass\<close>

definition dot :: "real list \<Rightarrow> real list \<Rightarrow> real" where
  "dot u v = sum_list (map2 (*) u v)"

definition row_of :: "tensor \<Rightarrow> nat \<Rightarrow> nat \<Rightarrow> real list" where
  "row_of W n_in j = take n_in (drop (j * n_in) (data W))"

text \<open>
  \<^verbatim>\<open>F.linear(x, weight, bias)\<close> on a batch: every row \<open>r\<close> becomes \<open>r W\<^sup>T + b\<close>. The
  library raises a RuntimeError when the shapes do not fit: the weight of rank two
  (out, in) as every constructor of the program makes it, the batch with \<open>in\<close> columns,
  the bias of shape (out).
\<close>

definition F_linear :: "mat \<Rightarrow> tensor \<Rightarrow> tensor \<Rightarrow> error + mat" where
  "F_linear x W b =
     (case shape W of
        [n_out, n_in] \<Rightarrow>
          if ncols x = n_in \<and> shape b = [n_out]
          then Inr \<lparr>ncols = n_out,
                    rows = map (\<lambda>r. map (\<lambda>j. dot r (row_of W n_in j) + data b ! j) [0..<n_out])
                               (rows x)\<rparr>
          else Inl RuntimeError
      | _ \<Rightarrow> Inl RuntimeError)"

fun layer_forward :: "layer \<Rightarrow> mat \<Rightarrow> state \<Rightarrow> error + mat" where
  "layer_forward (Linear l) x st = F_linear x (heap st (weight l)) (heap st (bias l))"
| "layer_forward Tanh x st = Inr \<lparr>ncols = ncols x, rows = map (map tanh) (rows x)\<rparr>"

text \<open>\<^verbatim>\<open>nn.Sequential\<close>: the layers in order, the first exception ending the pass.\<close>

fun Sequential_forward :: "layer list \<Rightarrow> mat \<Rightarrow> state \<Rightarrow> error + mat" where
  "Sequential_forward [] x st = Inr x"
| "Sequential_forward (l # ls) x st =
     (case layer_forward l x st of
        Inl e \<Rightarrow> Inl e
      | Inr y \<Rightarrow> Sequential_forward ls y st)"

text \<open>
  \<^verbatim>\<open>get_value\<close> and \<^verbatim>\<open>get_action_and_value\<close> of \<^verbatim>\<open>Agent\<close>, which
  \<^verbatim>\<open>SampledAgent\<close> inherits.
\<close>

definition get_value :: "agent \<Rightarrow> mat \<Rightarrow> state \<Rightarrow> error + mat" where
  "get_value self x st = Sequential_forward (critic self) x st"

text \<open>
  \<^verbatim>\<open>t.expand_as(m)\<close> for a parameter tensor of rank at most two and a batch \<open>m\<close>:
  dimensions are aligned from the right, a dimension of size one is repeated, any other
  must agree, else the library raises a RuntimeError.
\<close>

definition as_2d :: "nat list \<Rightarrow> (nat \<times> nat) option" where
  "as_2d shp = (case shp of [] \<Rightarrow> Some (1, 1) | [c] \<Rightarrow> Some (1, c) | [r, c] \<Rightarrow> Some (r, c)
                | _ \<Rightarrow> None)"

definition expand_as :: "tensor \<Rightarrow> mat \<Rightarrow> error + mat" where
  "expand_as t m =
     (case as_2d (shape t) of
        None \<Rightarrow> Inl RuntimeError
      | Some (r, c) \<Rightarrow>
          if (r = nrows m \<or> r = 1) \<and> (c = ncols m \<or> c = 1)
          then Inr \<lparr>ncols = ncols m,
                    rows = map (\<lambda>i. map (\<lambda>j. data t ! ((if r = 1 then 0 else i) * c
                                                         + (if c = 1 then 0 else j)))
                                         [0..<ncols m])
                               [0..<nrows m]\<rparr>
          else Inl RuntimeError)"

definition torch_exp :: "mat \<Rightarrow> mat" where
  "torch_exp m = \<lparr>ncols = ncols m, rows = map (map exp) (rows m)\<rparr>"

text \<open>
  \<^verbatim>\<open>Normal(loc, scale)\<close>, both of one shape here. With argument validation, which is the
  library's default, a scale that is not positive raises a ValueError.
\<close>

record normal =
  loc :: mat
  scale :: mat

definition Normal :: "mat \<Rightarrow> mat \<Rightarrow> error + normal" where
  "Normal l s =
     (if list_all (list_all (\<lambda>v. 0 < v)) (rows s) then Inr \<lparr>loc = l, scale = s\<rparr>
      else Inl ValueError)"

text \<open>\<^verbatim>\<open>probs.sample()\<close>: one standard normal variate per element from the random source.\<close>

definition Normal_sample :: "normal \<Rightarrow> state \<Rightarrow> mat \<times> state" where
  "Normal_sample p st =
     (let R = nrows (loc p); C = ncols (loc p);
          (eps, st1) = draw (R * C) st
      in (\<lparr>ncols = C,
           rows = map (\<lambda>i. map (\<lambda>j. rows (loc p) ! i ! j + rows (scale p) ! i ! j * eps ! (i * C + j))
                                [0..<C])
                      [0..<R]\<rparr>, st1))"

text \<open>
  \<^verbatim>\<open>probs.log_prob(value)\<close> broadcasts the value against the distribution: per dimension
  the sizes agree or one of them is one, else a ValueError.
\<close>

definition broadcast_dim :: "nat \<Rightarrow> nat \<Rightarrow> nat option" where
  "broadcast_dim a b =
     (if a = b then Some a else if a = 1 then Some b else if b = 1 then Some a else None)"

definition elem :: "mat \<Rightarrow> nat \<Rightarrow> nat \<Rightarrow> real" where
  "elem m i j = rows m ! (if nrows m = 1 then 0 else i) ! (if ncols m = 1 then 0 else j)"

definition log_density :: "real \<Rightarrow> real \<Rightarrow> real \<Rightarrow> real" where
  "log_density m s v = - ((v - m)\<^sup>2) / (2 * s\<^sup>2) - ln s - ln (sqrt (2 * pi))"

definition Normal_log_prob :: "normal \<Rightarrow> mat \<Rightarrow> error + mat" where
  "Normal_log_prob p v =
     (case (broadcast_dim (nrows v) (nrows (loc p)), broadcast_dim (ncols v) (ncols (loc p))) of
        (Some R, Some C) \<Rightarrow>
          Inr \<lparr>ncols = C,
               rows = map (\<lambda>i. map (\<lambda>j. log_density (elem (loc p) i j) (elem (scale p) i j) (elem v i j))
                                    [0..<C])
                          [0..<R]\<rparr>
      | _ \<Rightarrow> Inl ValueError)"

definition Normal_entropy :: "normal \<Rightarrow> mat" where
  "Normal_entropy p =
     \<lparr>ncols = ncols (scale p),
      rows = map (map (\<lambda>s. 1 / 2 + 1 / 2 * ln (2 * pi) + ln s)) (rows (scale p))\<rparr>"

text \<open>\<^verbatim>\<open>m.sum(1)\<close>: one sum per row.\<close>

definition sum1 :: "mat \<Rightarrow> real list" where
  "sum1 m = map sum_list (rows m)"

text \<open>
  The first four statements of \<^verbatim>\<open>get_action_and_value\<close>: the distribution \<^verbatim>\<open>probs\<close>.
\<close>

definition action_probs :: "agent \<Rightarrow> mat \<Rightarrow> state \<Rightarrow> error + normal" where
  "action_probs self x st =
     (case Sequential_forward (actor_mean self) x st of
        Inl e \<Rightarrow> Inl e
      | Inr action_mean \<Rightarrow>
          (case expand_as (heap st (actor_logstd self)) action_mean of
             Inl e \<Rightarrow> Inl e
           | Inr action_logstd \<Rightarrow> Normal action_mean (torch_exp action_logstd)))"

definition get_action_and_value ::
  "agent \<Rightarrow> mat \<Rightarrow> mat option \<Rightarrow> state \<Rightarrow> error + ((mat \<times> real list \<times> real list \<times> mat) \<times> state)" where
  "get_action_and_value self x action st =
     (case action_probs self x st of
        Inl e \<Rightarrow> Inl e
      | Inr probs \<Rightarrow>
          let (act, st1) = (case action of None \<Rightarrow> Normal_sample probs st | Some a \<Rightarrow> (a, st))
          in (case Normal_log_prob probs act of
                Inl e \<Rightarrow> Inl e
              | Inr lp \<Rightarrow>
                  (case Sequential_forward (critic self) x st1 of
                     Inl e \<Rightarrow> Inl e
                   | Inr v \<Rightarrow> Inr ((act, sum1 lp, sum1 (Normal_entropy probs), v), st1))))"

section \<open>The Bayesian agent\<close>

text \<open>
  Modelled from the spec: the class \<^verbatim>\<open>BayesianLinear\<close> of the module
  \<^verbatim>\<open>custom_layers\<close>, which the notebook imports. A Bayesian layer holds, for its weight
  and for its bias, a sampler with a mean tensor and a spread tensor of one shape: (out, in)
  for the weight and (out) for the bias. \<^verbatim>\<open>sample()\<close> returns a fresh tensor of the shape
  of the mean, each element drawn from its (mean, spread) pair with a positive standard
  deviation (the softplus of the spread), and leaves the distribution parameters as they are.
\<close>

record sampler =
  mu :: addr
  rho :: addr

record bayesian_linear =
  b_in_features :: nat
  b_out_features :: nat
  neuron_types_in :: nat
  neuron_types_out :: nat
  weight_sampler :: sampler
  bias_sampler :: sampler

definition sampler_init :: "nat list \<Rightarrow> state \<Rightarrow> sampler \<times> state" where
  "sampler_init shp st =
     (let (m, st1) = draw (prod_list shp) st;
          (ma, st2) = alloc \<lparr>shape = shp, data = m\<rparr> st1;
          (r, st3) = draw (prod_list shp) st2;
          (ra, st4) = alloc \<lparr>shape = shp, data = r\<rparr> st3
      in (\<lparr>mu = ma, rho = ra\<rparr>, st4))"

definition BayesianLinear_init :: "nat \<Rightarrow> nat \<Rightarrow> nat \<Rightarrow> nat \<Rightarrow> state \<Rightarrow> bayesian_linear \<times> state" where
  "BayesianLinear_init n_in n_out types_in types_out st =
     (let (ws, st1) = sampler_init [n_out, n_in] st;
          (bs, st2) = sampler_init [n_out] st1
      in (\<lparr>b_in_features = n_in, b_out_features = n_out,
           neuron_types_in = types_in, neuron_types_out = types_out,
           weight_sampler = ws, bias_sampler = bs\<rparr>, st2))"

definition softplus :: "real \<Rightarrow> real" where
  "softplus r = ln (1 + exp r)"

definition sampled_tensor :: "sampler \<Rightarrow> state \<Rightarrow> tensor \<times> state" where
  "sampled_tensor smp st =
     (let m = heap st (mu smp); r = heap st (rho smp);
          (eps, st1) = draw (length (data m)) st
      in (\<lparr>shape = shape m,
           data = map (\<lambda>(a, s, e). a + softplus s * e) (zip (data m) (zip (data r) eps))\<rparr>, st1))"

definition sample :: "sampler \<Rightarrow> state \<Rightarrow> addr \<times> state" where
  "sample smp st = (let (t, st1) = sampled_tensor smp st in alloc t st1)"

text \<open>
  The sequences of the Bayesian agent mix Bayesian layers with deterministic ones; a module
  of any other class is \<open>Other\<close> with the name of its class. The forward pass of the
  Bayesian agent itself runs through \<^verbatim>\<open>BayesianLinear\<close> and is not modelled.
\<close>

datatype component = BayesianLinear bayesian_linear | Plain layer | Other string

record bayesian_agent = "component networks" +
  envs :: envs

definition BayesianAgent_init :: "envs \<Rightarrow> nat \<Rightarrow> state \<Rightarrow> error + (bayesian_agent \<times> state)" where
  "BayesianAgent_init env number_of_cell_types st =
     (case np_prod (space_shape (single_observation_space env)) of
        Inl e \<Rightarrow> Inl e
      | Inr obs \<Rightarrow>
          let (c1, st1) = BayesianLinear_init obs 256 number_of_cell_types number_of_cell_types st;
              (c2, st2) = BayesianLinear_init 256 256 number_of_cell_types number_of_cell_types st1;
              (c3, st3) = layer_init_Linear 256 1 1 st2;
              (a1, st4) = BayesianLinear_init obs 256 number_of_cell_types number_of_cell_types st3;
              (a2, st5) = BayesianLinear_init 256 256 number_of_cell_types number_of_cell_types st4
          in (case np_prod (space_shape (single_action_space env)) of
                Inl e \<Rightarrow> Inl e
              | Inr act \<Rightarrow>
                  let (a3, st6) = layer_init_Linear 256 act (1 / 100) st5;
                      (ls, st7) = alloc (zeros [1, act]) st6
                  in Inr (\<lparr>critic = [BayesianLinear c1, Plain Tanh, BayesianLinear c2, Plain Tanh,
                                     Plain (Linear c3)],
                           actor_mean = [BayesianLinear a1, Plain Tanh, BayesianLinear a2,
                                         Plain Tanh, Plain (Linear a3)],
                           actor_logstd = ls, envs = env\<rparr>, st7)))"

text \<open>
  \<^verbatim>\<open>construct_vanilla_layer(weights, biases)\<close>: a new \<^verbatim>\<open>nn.Linear\<close> sized by
  \<^verbatim>\<open>weights.shape[1]\<close> and \<^verbatim>\<open>weights.shape[0]\<close> (an IndexError below rank two), whose
  \<^verbatim>\<open>weight.data\<close> and \<^verbatim>\<open>bias.data\<close> are then set to the two tensors themselves.
\<close>

definition construct_vanilla_layer :: "addr \<Rightarrow> addr \<Rightarrow> state \<Rightarrow> error + (linear \<times> state)" where
  "construct_vanilla_layer weights biases st =
     (let shp = shape (heap st weights)
      in if length shp < 2 then Inl IndexError
         else let (layer, st1) = nn_Linear (shp ! 1) (shp ! 0) st
              in Inr (layer\<lparr>weight := weights, bias := biases\<rparr>, st1))"

text \<open>\<^verbatim>\<open>deepcopy(layer)\<close> of a linear layer: both parameters cloned into new storage.\<close>

definition deepcopy_Linear :: "linear \<Rightarrow> state \<Rightarrow> linear \<times> state" where
  "deepcopy_Linear l st =
     (let (wa, st1) = alloc (heap st (weight l)) st;
          (ba, st2) = alloc (heap st1 (bias l)) st1
      in (l\<lparr>weight := wa, bias := ba\<rparr>, st2))"

text \<open>
  The body of the two loops of \<^verbatim>\<open>sample_vanilla_agent\<close>: what one component appends to
  the list of layers.
\<close>

fun sample_component :: "component \<Rightarrow> state \<Rightarrow> error + (layer list \<times> state)" where
  "sample_component (BayesianLinear a_layer) st =
     (let (w, st1) = sample (weight_sampler a_layer) st;
          (b, st2) = sample (bias_sampler a_layer) st1
      in (case construct_vanilla_layer w b st2 of
            Inl e \<Rightarrow> Inl e
          | Inr (l, st3) \<Rightarrow> Inr ([Linear l, Tanh], st3)))"
| "sample_component (Plain (Linear a_layer)) st =
     (let (l, st1) = deepcopy_Linear a_layer st in Inr ([Linear l], st1))"
| "sample_component (Plain Tanh) st = Inr ([], st)"
| "sample_component (Other cls) st = Inr ([], st)"

fun sample_layers :: "component list \<Rightarrow> state \<Rightarrow> error + (layer list \<times> state)" where
  "sample_layers [] st = Inr ([], st)"
| "sample_layers (c # cs) st =
     (case sample_component c st of
        Inl e \<Rightarrow> Inl e
      | Inr (ls, st1) \<Rightarrow>
          (case sample_layers cs st1 of
             Inl e \<Rightarrow> Inl e
           | Inr (ls', st2) \<Rightarrow> Inr (ls @ ls', st2)))"

definition sample_vanilla_agent :: "bayesian_agent \<Rightarrow> state \<Rightarrow> error + (agent \<times> state)" where
  "sample_vanilla_agent self st =
     (case sample_layers (actor_mean self) st of
        Inl e \<Rightarrow> Inl e
      | Inr (actor_mean_layers, st1) \<Rightarrow>
          (case sample_layers (critic self) st1 of
             Inl e \<Rightarrow> Inl e
           | Inr (critic_layers, st2) \<Rightarrow>
               let (logstd, st3) = alloc (heap st2 (actor_logstd self)) st2
               in SampledAgent_init (envs self) critic_layers actor_mean_layers logstd st3))"

section \<open>The cell that builds the agents\<close>

text \<open>
  The second cell, from the environment object that the simulator and its wrappers return:
  it sets the two \<^verbatim>\<open>single_\<close> attributes, asserts that the action space is a
  \<^verbatim>\<open>gym.spaces.Box\<close>, builds the Bayesian agent with 256 cell types and samples from it.
  Moving the agent to the GPU changes nothing that the model tracks.
\<close>

fun is_Box :: "space \<Rightarrow> bool" where
  "is_Box (Box shp) = True"
| "is_Box _ = False"

definition setup_cell :: "envs \<Rightarrow> state \<Rightarrow> error + ((envs \<times> bayesian_agent \<times> agent) \<times> state)" where
  "setup_cell env0 st =
     (let env1 = env0\<lparr>single_action_space := action_space env0\<rparr>;
          env2 = env1\<lparr>single_observation_space := observation_space env1\<rparr>
      in if \<not> is_Box (single_action_space env2)
         then Inl (AssertionError ''only continuous action space is supported'')
         else (case BayesianAgent_init env2 256 st of
                 Inl e \<Rightarrow> Inl e
               | Inr (agent, st1) \<Rightarrow>
                   (case sample_vanilla_agent agent st1 of
                      Inl e \<Rightarrow> Inl e
                    | Inr (sampled_agent, st2) \<Rightarrow> Inr ((env2, agent, sampled_agent), st2))))"

section \<open>Shapes, addresses and the growth of the store\<close>

text \<open>
  The store grows from \<open>st\<close> to \<open>st'\<close> when no address is given back and every tensor
  allocated in \<open>st\<close> is still what it was.
\<close>

definition grows :: "state \<Rightarrow> state \<Rightarrow> bool" where
  "grows st st' \<longleftrightarrow> next_addr st \<le> next_addr st' \<and> (\<forall>a<next_addr st. heap st' a = heap st a)"

text \<open>The addresses an object holds: its parameters.\<close>

fun layer_addrs :: "layer \<Rightarrow> addr set" where
  "layer_addrs (Linear l) = {weight l, bias l}"
| "layer_addrs Tanh = {}"

definition net_addrs :: "layer list \<Rightarrow> addr set" where
  "net_addrs ls = (\<Union>l\<in>set ls. layer_addrs l)"

definition agent_addrs :: "agent \<Rightarrow> addr set" where
  "agent_addrs self = net_addrs (critic self) \<union> net_addrs (actor_mean self) \<union> {actor_logstd self}"

fun component_addrs :: "component \<Rightarrow> addr set" where
  "component_addrs (BayesianLinear b) =
     {mu (weight_sampler b), rho (weight_sampler b), mu (bias_sampler b), rho (bias_sampler b)}"
| "component_addrs (Plain l) = layer_addrs l"
| "component_addrs (Other cls) = {}"

definition bayesian_addrs :: "bayesian_agent \<Rightarrow> addr set" where
  "bayesian_addrs self =
     (\<Union>c\<in>set (critic self). component_addrs c) \<union> (\<Union>c\<in>set (actor_mean self). component_addrs c)
      \<union> {actor_logstd self}"

text \<open>
  A sequence of layers takes rows of \<open>d\<close> numbers to rows of \<open>d'\<close> numbers when the shapes
  of its parameters chain; an agent is well shaped for \<open>obs\<close> observation features and
  \<open>D\<close> action dimensions when its two sequences are and its log standard deviation has
  shape (1, D), as the constructor of \<^verbatim>\<open>Agent\<close> makes them.
\<close>

fun wf_net :: "layer list \<Rightarrow> state \<Rightarrow> nat \<Rightarrow> nat \<Rightarrow> bool" where
  "wf_net [] st d d' = (d = d')"
| "wf_net (Linear l # ls) st d d' =
     (case shape (heap st (weight l)) of
        [n_out, n_in] \<Rightarrow> n_in = d \<and> shape (heap st (bias l)) = [n_out] \<and> wf_net ls st n_out d'
      | _ \<Rightarrow> False)"
| "wf_net (Tanh # ls) st d d' = wf_net ls st d d'"

definition well_shaped :: "agent \<Rightarrow> state \<Rightarrow> nat \<Rightarrow> nat \<Rightarrow> bool" where
  "well_shaped self st obs D \<longleftrightarrow>
     wf_net (actor_mean self) st obs D \<and> wf_net (critic self) st obs 1
     \<and> shape (heap st (actor_logstd self)) = [1, D]"

text \<open>A batch of shape (B, D): \<open>B\<close> rows of \<open>D\<close> numbers.\<close>

definition has_shape :: "mat \<Rightarrow> nat \<Rightarrow> nat \<Rightarrow> bool" where
  "has_shape m B D \<longleftrightarrow> nrows m = B \<and> ncols m = D \<and> list_all (\<lambda>r. length r = D) (rows m)"

text \<open>The number of layers that one component appends in \<^verbatim>\<open>sample_vanilla_agent\<close>.\<close>

fun appended :: "component \<Rightarrow> nat" where
  "appended (BayesianLinear b) = 2"
| "appended (Plain (Linear l)) = 1"
| "appended (Plain Tanh) = 0"
| "appended (Other cls) = 0"

section \<open>Example values\<close>

text \<open>
  A small store with the parameters of one Bayesian layer (addresses 0 to 3), one linear
  layer (4 and 5) and a log standard deviation (6), and agents over it; environments with
  one observation feature and one action dimension, with 48 and 12, and with a discrete
  action space.
\<close>

definition heap0 :: "addr \<Rightarrow> tensor" where
  "heap0 = (\<lambda>a. zeros [0])
     (0 := \<lparr>shape = [1, 1], data = [1]\<rparr>, 1 := \<lparr>shape = [1, 1], data = [0]\<rparr>,
      2 := \<lparr>shape = [1], data = [0]\<rparr>, 3 := \<lparr>shape = [1], data = [0]\<rparr>,
      4 := \<lparr>shape = [1, 1], data = [2]\<rparr>, 5 := \<lparr>shape = [1], data = [0]\<rparr>,
      6 := \<lparr>shape = [1, 1], data = [0]\<rparr>)"

definition st0 :: state where
  "st0 = \<lparr>heap = heap0, next_addr = 7, rng = (\<lambda>i. 0)\<rparr>"

definition env0 :: envs where
  "env0 = \<lparr>action_space = Box [1], observation_space = Box [1],
           single_action_space = Box [1], single_observation_space = Box [1]\<rparr>"

definition env48 :: envs where
  "env48 = \<lparr>action_space = Box [12], observation_space = Box [48],
            single_action_space = Box [12], single_observation_space = Box [48]\<rparr>"

definition env_discrete :: envs where
  "env_discrete = \<lparr>action_space = Discrete 4, observation_space = Box [48],
                    single_action_space = Discrete 4, single_observation_space = Box [48]\<rparr>"

definition bl0 :: bayesian_linear where
  "bl0 = \<lparr>b_in_features = 1, b_out_features = 1, neuron_types_in = 1, neuron_types_out = 1,
          weight_sampler = \<lparr>mu = 0, rho = 1\<rparr>, bias_sampler = \<lparr>mu = 2, rho = 3\<rparr>\<rparr>"

definition lin0 :: linear where
  "lin0 = \<lparr>in_features = 1, out_features = 1, weight = 4, bias = 5\<rparr>"

definition bag0 :: bayesian_agent where
  "bag0 = \<lparr>critic = [BayesianLinear bl0, Plain Tanh, Plain (Linear lin0)],
           actor_mean = [BayesianLinear bl0, Plain Tanh, Plain (Linear lin0)],
           actor_logstd = 6, envs = env0\<rparr>"

definition ag0 :: agent where
  "ag0 = \<lparr>critic = [Linear lin0, Tanh], actor_mean = [Linear lin0], actor_logstd = 6\<rparr>"

definition x0 :: mat where
  "x0 = \<lparr>ncols = 1, rows = [[1], [2]]\<rparr>"

definition a0 :: mat where
  "a0 = \<lparr>ncols = 1, rows = [[3], [4]]\<rparr>"

definition x48 :: mat where
  "x48 = \<lparr>ncols = 48, rows = [replicate 48 0, replicate 48 1]\<rparr>"

section \<open>Allocation and initialisation\<close>

lemma grows_refl: "grows st st"
  by (simp add: grows_def)

lemma grows_trans: "grows st st1 \<Longrightarrow> grows st1 st2 \<Longrightarrow> grows st st2"
  by (auto simp: grows_def)

lemma alloc_eq:
  "alloc t st = (a, st') \<Longrightarrow>
     a = next_addr st \<and> next_addr st' = Suc (next_addr st) \<and> heap st' = (heap st)(a := t) \<and> rng st' = rng st"
  by (auto simp: alloc_def)

lemma draw_eq:
  "draw n st = (xs, st') \<Longrightarrow>
     xs = map (rng st) [0..<n] \<and> next_addr st' = next_addr st \<and> heap st' = heap st"
  by (auto simp: draw_def)

lemma nn_Linear_eq:
  assumes "nn_Linear n_in n_out st = (l, st')"
  shows "weight l = next_addr st" "bias l = Suc (next_addr st)"
    "next_addr st' = Suc (Suc (next_addr st))"
    "in_features l = n_in" "out_features l = n_out"
    "shape (heap st' (weight l)) = [n_out, n_in]" "shape (heap st' (bias l)) = [n_out]"
    "\<forall>a<next_addr st. heap st' a = heap st a"
  using assms by (auto simp: nn_Linear_def alloc_def draw_def Let_def split: prod.splits)

lemma layer_init_eq:
  assumes "layer_init l std c st = (l', st')"
  shows "l' = l" "next_addr st' = next_addr st"
    "\<forall>a. a \<noteq> weight l \<and> a \<noteq> bias l \<longrightarrow> heap st' a = heap st a"
    "shape (heap st' (weight l)) = shape (heap st (weight l))"
    "shape (heap st' (bias l)) = shape (heap st (bias l))"
  using assms by (auto simp: layer_init_def draw_def Let_def split: prod.splits)

lemma layer_init_Linear_eq:
  assumes "layer_init_Linear n_in n_out std st = (l, st')"
  shows "weight l = next_addr st" "bias l = Suc (next_addr st)"
    "next_addr st' = Suc (Suc (next_addr st))"
    "in_features l = n_in" "out_features l = n_out"
    "shape (heap st' (weight l)) = [n_out, n_in]" "shape (heap st' (bias l)) = [n_out]"
    "\<forall>a<next_addr st. heap st' a = heap st a"
proof -
  obtain l0 st1 where a: "nn_Linear n_in n_out st = (l0, st1)" by (cases "nn_Linear n_in n_out st")
  with assms have b: "layer_init l0 std 0 st1 = (l, st')" by (simp add: layer_init_Linear_def)
  note A = nn_Linear_eq[OF a] and B = layer_init_eq[OF b]
  show "weight l = next_addr st" "bias l = Suc (next_addr st)"
    "next_addr st' = Suc (Suc (next_addr st))"
    "in_features l = n_in" "out_features l = n_out"
    using A B by simp_all
  show "shape (heap st' (weight l)) = [n_out, n_in]" "shape (heap st' (bias l)) = [n_out]"
    using A B by simp_all
  show "\<forall>a<next_addr st. heap st' a = heap st a"
    using A B by simp
qed

section \<open>Sampling allocates fresh storage\<close>

lemma net_addrs_simps [simp]:
  "net_addrs [] = {}" "net_addrs (l # ls) = layer_addrs l \<union> net_addrs ls"
  "net_addrs (ls @ ls') = net_addrs ls \<union> net_addrs ls'"
  by (auto simp: net_addrs_def)

lemma sampled_tensor_eq:
  assumes "sampled_tensor smp st = (t, st')"
  shows "heap st' = heap st" "next_addr st' = next_addr st" "shape t = shape (heap st (mu smp))"
  using assms by (auto simp: sampled_tensor_def draw_def Let_def split: prod.splits)

lemma sample_eq:
  assumes "sample smp st = (a, st')"
  shows "a = next_addr st" "next_addr st' = Suc (next_addr st)"
    "heap st' a = fst (sampled_tensor smp st)"
    "\<forall>b. b \<noteq> a \<longrightarrow> heap st' b = heap st b"
  using assms
  by (auto simp: sample_def alloc_def Let_def split: prod.splits dest: sampled_tensor_eq)

lemma construct_vanilla_layer_eq:
  assumes "construct_vanilla_layer w b st = Inr (l, st')"
  shows "weight l = w" "bias l = b" "next_addr st' = Suc (Suc (next_addr st))"
    "\<forall>a<next_addr st. heap st' a = heap st a"
    "in_features l = shape (heap st w) ! 1" "out_features l = shape (heap st w) ! 0"
    "2 \<le> length (shape (heap st w))"
  using assms
  by (auto simp: construct_vanilla_layer_def Let_def split: if_splits prod.splits dest: nn_Linear_eq)

lemma deepcopy_Linear_eq:
  assumes "deepcopy_Linear l st = (l', st')"
  shows "weight l' = next_addr st" "bias l' = Suc (next_addr st)"
    "next_addr st' = Suc (Suc (next_addr st))"
    "in_features l' = in_features l" "out_features l' = out_features l"
    "heap st' (weight l') = heap st (weight l)"
    "bias l \<noteq> next_addr st \<Longrightarrow> heap st' (bias l') = heap st (bias l)"
    "\<forall>a<next_addr st. heap st' a = heap st a"
  using assms by (auto simp: deepcopy_Linear_def alloc_def Let_def split: prod.splits)

lemma sample_component_fresh:
  assumes "sample_component c st = Inr (ls, st')"
  shows "grows st st' \<and> net_addrs ls \<subseteq> {next_addr st..<next_addr st'}"
proof (cases c)
  case (BayesianLinear bl)
  obtain w st1 where w: "sample (weight_sampler bl) st = (w, st1)"
    by (cases "sample (weight_sampler bl) st")
  obtain b st2 where b: "sample (bias_sampler bl) st1 = (b, st2)"
    by (cases "sample (bias_sampler bl) st1")
  from assms BayesianLinear w b obtain l where
    c: "construct_vanilla_layer w b st2 = Inr (l, st')" and ls: "ls = [Linear l, Tanh]"
    by (auto split: sum.splits)
  note W = sample_eq[OF w] and B = sample_eq[OF b] and C = construct_vanilla_layer_eq[OF c]
  show ?thesis
    using W B C ls by (auto simp: grows_def)
next
  case (Plain lay)
  show ?thesis
  proof (cases lay)
    case (Linear l)
    obtain l' st1 where d: "deepcopy_Linear l st = (l', st1)" by (cases "deepcopy_Linear l st")
    with assms Plain Linear have "ls = [Linear l']" "st' = st1" by auto
    with deepcopy_Linear_eq[OF d] show ?thesis by (auto simp: grows_def)
  next
    case Tanh
    with assms Plain show ?thesis by (auto simp: grows_def)
  qed
next
  case (Other cls)
  with assms show ?thesis by (auto simp: grows_def)
qed

lemma sample_layers_fresh:
  "sample_layers cs st = Inr (ls, st') \<Longrightarrow>
     grows st st' \<and> net_addrs ls \<subseteq> {next_addr st..<next_addr st'}"
proof (induction cs arbitrary: st ls)
  case Nil
  then show ?case by (simp add: grows_refl)
next
  case (Cons c cs)
  from Cons.prems obtain ls1 st1 ls2 where
    c: "sample_component c st = Inr (ls1, st1)" and
    r: "sample_layers cs st1 = Inr (ls2, st')" and ls: "ls = ls1 @ ls2"
    by (auto split: sum.splits)
  from sample_component_fresh[OF c] Cons.IH[OF r] ls show ?case
    by (auto simp: grows_def)
qed

lemma sample_layers_append:
  "sample_layers (cs @ cs') st =
     (case sample_layers cs st of
        Inl e \<Rightarrow> Inl e
      | Inr (ls1, st1) \<Rightarrow>
          (case sample_layers cs' st1 of
             Inl e \<Rightarrow> Inl e
           | Inr (ls2, st2) \<Rightarrow> Inr (ls1 @ ls2, st2)))"
  by (induction cs arbitrary: st) (auto split: sum.splits)

lemma sample_component_length:
  "sample_component c st = Inr (ls, st') \<Longrightarrow> length ls = appended c"
  by (induction c st rule: sample_component.induct) (auto simp: Let_def split: prod.splits sum.splits)

lemma sample_layers_length:
  "sample_layers cs st = Inr (ls, st') \<Longrightarrow> length ls = sum_list (map appended cs)"
proof (induction cs arbitrary: st ls)
  case Nil
  then show ?case by simp
next
  case (Cons c cs)
  from Cons.prems obtain ls1 st1 ls2 where
    c: "sample_component c st = Inr (ls1, st1)" and
    r: "sample_layers cs st1 = Inr (ls2, st')" and ls: "ls = ls1 @ ls2"
    by (auto split: sum.splits)
  from sample_component_length[OF c] Cons.IH[OF r] ls show ?case by simp
qed


lemma sample_component_BayesianLinear_eq:
  assumes "sample_component (BayesianLinear bl) st = Inr (ls, st')"
  shows "\<exists>l. ls = [Linear l, Tanh]
     \<and> weight l = next_addr st \<and> bias l = Suc (next_addr st)
     \<and> next_addr st' = next_addr st + 4
     \<and> heap st' (weight l) = fst (sampled_tensor (weight_sampler bl) st)
     \<and> heap st' (bias l)
         = fst (sampled_tensor (bias_sampler bl) (snd (sample (weight_sampler bl) st)))
     \<and> 2 \<le> length (shape (heap st' (weight l)))
     \<and> in_features l = shape (heap st' (weight l)) ! 1
     \<and> out_features l = shape (heap st' (weight l)) ! 0"
  using assms
  by (auto simp: sample_def sampled_tensor_def alloc_def draw_def construct_vanilla_layer_def
      nn_Linear_def Let_def split: if_splits)

lemma sampled_tensor_shape:
  "shape (fst (sampled_tensor smp st)) = shape (heap st (mu smp))"
  by (simp add: sampled_tensor_def draw_def Let_def split: prod.splits)

lemma sample_heap_below:
  "a < next_addr st \<Longrightarrow> heap (snd (sample smp st)) a = heap st a"
  by (simp add: sample_def sampled_tensor_def alloc_def draw_def Let_def split: prod.splits)

section \<open>The forward pass reads only the parameters of its layers\<close>

lemma layer_forward_cong:
  "\<forall>a\<in>layer_addrs l. heap st a = heap st' a \<Longrightarrow> layer_forward l x st = layer_forward l x st'"
  by (cases l) auto

lemma Sequential_forward_cong:
  "\<forall>a\<in>net_addrs ls. heap st a = heap st' a \<Longrightarrow>
     Sequential_forward ls x st = Sequential_forward ls x st'"
proof (induction ls arbitrary: x)
  case Nil
  then show ?case by simp
next
  case (Cons l ls)
  then have "layer_forward l x st = layer_forward l x st'"
    by (intro layer_forward_cong) simp
  with Cons show ?case by (auto split: sum.splits)
qed

lemma action_probs_cong:
  assumes "\<forall>a\<in>agent_addrs self. heap st a = heap st' a"
  shows "action_probs self x st = action_probs self x st'"
proof -
  have "Sequential_forward (actor_mean self) x st = Sequential_forward (actor_mean self) x st'"
    using assms by (intro Sequential_forward_cong) (simp add: agent_addrs_def)
  moreover have "heap st (actor_logstd self) = heap st' (actor_logstd self)"
    using assms by (simp add: agent_addrs_def)
  ultimately show ?thesis by (simp add: action_probs_def split: sum.splits)
qed

lemma Normal_sample_cong:
  "rng st = rng st' \<Longrightarrow> fst (Normal_sample p st) = fst (Normal_sample p st')"
  by (simp add: Normal_sample_def draw_def Let_def)

lemma Normal_sample_heap:
  "Normal_sample p st = (a, st1) \<Longrightarrow> heap st1 = heap st \<and> next_addr st1 = next_addr st"
  by (auto simp: Normal_sample_def draw_def Let_def)

lemma get_action_and_value_cong:
  assumes h: "\<forall>a\<in>agent_addrs self. heap st a = heap st' a" and r: "rng st = rng st'"
  shows "map_sum id fst (get_action_and_value self x action st)
       = map_sum id fst (get_action_and_value self x action st')"
proof -
  have p: "action_probs self x st = action_probs self x st'"
    by (rule action_probs_cong[OF h])
  have c: "Sequential_forward (critic self) x s = Sequential_forward (critic self) x s'"
    if "heap s = heap st" "heap s' = heap st'" for s s'
    using h that by (intro Sequential_forward_cong) (simp add: agent_addrs_def)
  show ?thesis
  proof (cases "action_probs self x st'")
    case (Inl e)
    with p show ?thesis by (simp add: get_action_and_value_def)
  next
    case (Inr probs)
    obtain a s where a: "(case action of None \<Rightarrow> Normal_sample probs st | Some a \<Rightarrow> (a, st)) = (a, s)"
      by (cases "case action of None \<Rightarrow> Normal_sample probs st | Some a \<Rightarrow> (a, st)")
    obtain a' s' where a': "(case action of None \<Rightarrow> Normal_sample probs st' | Some a \<Rightarrow> (a, st')) = (a', s')"
      by (cases "case action of None \<Rightarrow> Normal_sample probs st' | Some a \<Rightarrow> (a, st')")
    have "a = a'" using a a' Normal_sample_cong[OF r, of probs]
      by (cases action) (auto simp: fst_def split: prod.splits)
    moreover have "heap s = heap st" "heap s' = heap st'"
      using a a' by (cases action; auto dest: Normal_sample_heap)+
    ultimately show ?thesis
      using Inr p a a' c[of s s']
      by (auto simp: get_action_and_value_def split: sum.splits)
  qed
qed

section \<open>What the constructors build\<close>

lemma Agent_init_eq:
  assumes "Agent_init env st = Inr (self, st')"
  shows "\<exists>obs act. np_prod (space_shape (single_observation_space env)) = Inr obs
           \<and> np_prod (space_shape (single_action_space env)) = Inr act
           \<and> well_shaped self st' obs act"
    and "grows st st'" and "agent_addrs self \<subseteq> {next_addr st..<next_addr st'}"
proof -
  from assms obtain obs where obs: "np_prod (space_shape (single_observation_space env)) = Inr obs"
    by (auto simp: Agent_init_def split: sum.splits)
  obtain c1 st1 where c1: "layer_init_Linear obs 256 (sqrt 2) st = (c1, st1)"
    by (cases "layer_init_Linear obs 256 (sqrt 2) st")
  obtain c2 st2 where c2: "layer_init_Linear 256 256 (sqrt 2) st1 = (c2, st2)"
    by (cases "layer_init_Linear 256 256 (sqrt 2) st1")
  obtain c3 st3 where c3: "layer_init_Linear 256 1 1 st2 = (c3, st3)"
    by (cases "layer_init_Linear 256 1 1 st2")
  obtain a1 st4 where a1: "layer_init_Linear obs 256 (sqrt 2) st3 = (a1, st4)"
    by (cases "layer_init_Linear obs 256 (sqrt 2) st3")
  obtain a2 st5 where a2: "layer_init_Linear 256 256 (sqrt 2) st4 = (a2, st5)"
    by (cases "layer_init_Linear 256 256 (sqrt 2) st4")
  from assms obs c1 c2 c3 a1 a2 obtain act where
    act: "np_prod (space_shape (single_action_space env)) = Inr act"
    by (auto simp: Agent_init_def split: sum.splits)
  obtain a3 st6 where a3: "layer_init_Linear 256 act (1 / 100) st5 = (a3, st6)"
    by (cases "layer_init_Linear 256 act (1 / 100) st5")
  obtain ls st7 where ls: "alloc (zeros [1, act]) st6 = (ls, st7)"
    by (cases "alloc (zeros [1, act]) st6")
  from assms obs c1 c2 c3 a1 a2 act a3 ls have
    self: "self = \<lparr>critic = [Linear c1, Tanh, Linear c2, Tanh, Linear c3],
                   actor_mean = [Linear a1, Tanh, Linear a2, Tanh, Linear a3],
                   actor_logstd = ls\<rparr>" and st': "st' = st7"
    by (auto simp: Agent_init_def)
  note C1 = layer_init_Linear_eq[OF c1] and C2 = layer_init_Linear_eq[OF c2]
    and C3 = layer_init_Linear_eq[OF c3] and A1 = layer_init_Linear_eq[OF a1]
    and A2 = layer_init_Linear_eq[OF a2] and A3 = layer_init_Linear_eq[OF a3]
    and L = alloc_eq[OF ls]
  have nx: "next_addr st1 = next_addr st + 2" "next_addr st2 = next_addr st + 4"
    "next_addr st3 = next_addr st + 6" "next_addr st4 = next_addr st + 8"
    "next_addr st5 = next_addr st + 10" "next_addr st6 = next_addr st + 12"
    "next_addr st7 = next_addr st + 13"
    using C1(3) C2(3) C3(3) A1(3) A2(3) A3(3) L by simp_all
  have ad: "weight c1 = next_addr st" "bias c1 = next_addr st + 1"
    "weight c2 = next_addr st + 2" "bias c2 = next_addr st + 3"
    "weight c3 = next_addr st + 4" "bias c3 = next_addr st + 5"
    "weight a1 = next_addr st + 6" "bias a1 = next_addr st + 7"
    "weight a2 = next_addr st + 8" "bias a2 = next_addr st + 9"
    "weight a3 = next_addr st + 10" "bias a3 = next_addr st + 11"
    "ls = next_addr st + 12"
    using C1(1,2) C2(1,2) C3(1,2) A1(1,2) A2(1,2) A3(1,2) L nx by simp_all
  have keep: "heap st7 a = heap st6 a" if "a < next_addr st + 12" for a
    using L ad that by simp
  have k6: "heap st6 a = heap st5 a" if "a < next_addr st + 10" for a
    using A3(8) nx that by simp
  have k5: "heap st5 a = heap st4 a" if "a < next_addr st + 8" for a
    using A2(8) nx that by simp
  have k4: "heap st4 a = heap st3 a" if "a < next_addr st + 6" for a
    using A1(8) nx that by simp
  have k3: "heap st3 a = heap st2 a" if "a < next_addr st + 4" for a
    using C3(8) nx that by simp
  have k2: "heap st2 a = heap st1 a" if "a < next_addr st + 2" for a
    using C2(8) nx that by simp
  have k1: "heap st1 a = heap st a" if "a < next_addr st" for a
    using C1(8) that by simp
  have sh: "shape (heap st7 (weight c1)) = [256, obs]" "shape (heap st7 (bias c1)) = [256]"
    "shape (heap st7 (weight c2)) = [256, 256]" "shape (heap st7 (bias c2)) = [256]"
    "shape (heap st7 (weight c3)) = [1, 256]" "shape (heap st7 (bias c3)) = [1]"
    "shape (heap st7 (weight a1)) = [256, obs]" "shape (heap st7 (bias a1)) = [256]"
    "shape (heap st7 (weight a2)) = [256, 256]" "shape (heap st7 (bias a2)) = [256]"
    "shape (heap st7 (weight a3)) = [act, 256]" "shape (heap st7 (bias a3)) = [act]"
    using C1(6,7) C2(6,7) C3(6,7) A1(6,7) A2(6,7) A3(6,7)
    by (simp_all add: ad keep k6 k5 k4 k3 k2)
  have lsh: "shape (heap st7 ls) = [1, act]"
    using L by (simp add: zeros_def)
  have "well_shaped self st' obs act"
    unfolding well_shaped_def self st' by (simp add: sh lsh)
  with obs act show "\<exists>obs act. np_prod (space_shape (single_observation_space env)) = Inr obs
           \<and> np_prod (space_shape (single_action_space env)) = Inr act
           \<and> well_shaped self st' obs act" by blast
  show "grows st st'"
    unfolding grows_def st' by (auto simp: nx keep k6 k5 k4 k3 k2 k1)
  show "agent_addrs self \<subseteq> {next_addr st..<next_addr st'}"
    unfolding self st' by (auto simp: agent_addrs_def ad nx)
qed

lemma SampledAgent_init_eq:
  assumes "SampledAgent_init env crit am ls st = Inr (self, st')"
  shows "critic self = crit" "actor_mean self = am" "actor_logstd self = ls" "grows st st'"
  using assms
  by (auto simp: SampledAgent_init_def split: sum.splits dest: Agent_init_eq(2))

lemma sample_vanilla_agent_fresh:
  assumes "sample_vanilla_agent self st = Inr (sampled, st')"
  shows "grows st st'" and "agent_addrs sampled \<subseteq> {next_addr st..<next_addr st'}"
proof -
  from assms obtain am st1 where am: "sample_layers (actor_mean self) st = Inr (am, st1)"
    by (auto simp: sample_vanilla_agent_def split: sum.splits)
  from assms am obtain cr st2 where cr: "sample_layers (critic self) st1 = Inr (cr, st2)"
    by (auto simp: sample_vanilla_agent_def split: sum.splits)
  obtain ls st3 where ls: "alloc (heap st2 (actor_logstd self)) st2 = (ls, st3)"
    by (cases "alloc (heap st2 (actor_logstd self)) st2")
  from assms am cr ls have s: "SampledAgent_init (envs self) cr am ls st3 = Inr (sampled, st')"
    by (simp add: sample_vanilla_agent_def)
  note A = sample_layers_fresh[OF am] and C = sample_layers_fresh[OF cr]
    and L = alloc_eq[OF ls] and S = SampledAgent_init_eq[OF s]
  have g3: "grows st2 st3" using L by (auto simp: grows_def)
  show "grows st st'"
    using A C g3 S(4) by (blast intro: grows_trans)
  have n: "next_addr st \<le> next_addr st1" "next_addr st1 \<le> next_addr st2"
    "next_addr st3 = Suc (next_addr st2)" "next_addr st3 \<le> next_addr st'"
    using A C L S(4) by (simp_all add: grows_def)
  have "net_addrs am \<subseteq> {next_addr st..<next_addr st'}"
    "net_addrs cr \<subseteq> {next_addr st..<next_addr st'}"
    "ls \<in> {next_addr st..<next_addr st'}"
    using A C L n by auto
  then show "agent_addrs sampled \<subseteq> {next_addr st..<next_addr st'}"
    by (simp add: agent_addrs_def S)
qed

lemma BayesianAgent_init_eq:
  assumes "BayesianAgent_init env n st = Inr (self, st')"
  shows "\<exists>c1 c2 c3 a1 a2 a3.
           critic self = [BayesianLinear c1, Plain Tanh, BayesianLinear c2, Plain Tanh, Plain (Linear c3)]
         \<and> actor_mean self = [BayesianLinear a1, Plain Tanh, BayesianLinear a2, Plain Tanh, Plain (Linear a3)]"
  using assms
  by (auto simp: BayesianAgent_init_def Let_def split: sum.splits prod.splits)

lemma sample_vanilla_agent_bag0: "\<exists>sampled st'. sample_vanilla_agent bag0 st0 = Inr (sampled, st')"
  by (simp add: sample_vanilla_agent_def bag0_def st0_def heap0_def env0_def bl0_def lin0_def
      sample_def sampled_tensor_def alloc_def draw_def construct_vanilla_layer_def nn_Linear_def
      deepcopy_Linear_def SampledAgent_init_def Agent_init_def layer_init_Linear_def
      layer_init_def np_prod_def zeros_def Let_def)









section \<open>Sampling a deterministic agent\<close>

text \<open>
  Claim C1 (snapshot isolation of sampling). Let \<^verbatim>\<open>sample_vanilla_agent\<close> return the
  sampled agent from a state in which every parameter of the Bayesian agent is allocated.
  Then the sampled agent holds no address of the Bayesian agent, and whatever is afterwards
  written into the parameters of the Bayesian agent (the distribution parameters of its
  layers, the parameters of its linear layers, \<^verbatim>\<open>actor_logstd\<close>), for every input
  \<^verbatim>\<open>get_value\<close> and \<^verbatim>\<open>get_action_and_value\<close> of the sampled agent return what they
  returned before, the random source being the same.
\<close>

theorem sample_vanilla_agent_snapshot_isolation:
  assumes run: "sample_vanilla_agent self st = Inr (sampled, st')"
    and allocated: "bayesian_addrs self \<subseteq> {..<next_addr st}"
    and mutated: "\<forall>a. a \<notin> bayesian_addrs self \<longrightarrow> heap st'' a = heap st' a"
    and same_rng: "rng st'' = rng st'"
  shows "agent_addrs sampled \<inter> bayesian_addrs self = {}
       \<and> get_value sampled x st'' = get_value sampled x st'
       \<and> map_sum id fst (get_action_and_value sampled x action st'')
         = map_sum id fst (get_action_and_value sampled x action st')"
proof -
  have disj: "agent_addrs sampled \<inter> bayesian_addrs self = {}"
    using sample_vanilla_agent_fresh(2)[OF run] allocated by fastforce
  with mutated have agree: "\<forall>a\<in>agent_addrs sampled. heap st'' a = heap st' a"
    by blast
  then have "Sequential_forward (critic sampled) x st'' = Sequential_forward (critic sampled) x st'"
    by (intro Sequential_forward_cong) (simp add: agent_addrs_def)
  with disj get_action_and_value_cong[OF agree same_rng] show ?thesis
    by (simp add: get_value_def)
qed

theorem sample_vanilla_agent_snapshot_isolation_witness:
  "\<exists>sampled st'. sample_vanilla_agent bag0 st0 = Inr (sampled, st')
     \<and> bayesian_addrs bag0 \<subseteq> {..<next_addr st0}
     \<and> agent_addrs sampled \<inter> bayesian_addrs bag0 = {}
     \<and> get_value sampled x0 (st'\<lparr>heap := (heap st')(0 := zeros [3], 6 := zeros [2, 2])\<rparr>)
         = get_value sampled x0 st'
     \<and> map_sum id fst
           (get_action_and_value sampled x0 None
              (st'\<lparr>heap := (heap st')(0 := zeros [3], 6 := zeros [2, 2])\<rparr>))
         = map_sum id fst (get_action_and_value sampled x0 None st')"
proof -
  from sample_vanilla_agent_bag0 obtain sampled st' where r: "sample_vanilla_agent bag0 st0 = Inr (sampled, st')"
    by blast
  have al: "bayesian_addrs bag0 \<subseteq> {..<next_addr st0}"
    by (simp add: bayesian_addrs_def bag0_def bl0_def lin0_def st0_def)
  define st'' where "st'' = st'\<lparr>heap := (heap st')(0 := zeros [3], 6 := zeros [2, 2])\<rparr>"
  have mu: "\<forall>a. a \<notin> bayesian_addrs bag0 \<longrightarrow> heap st'' a = heap st' a"
    by (simp add: st''_def bayesian_addrs_def bag0_def bl0_def lin0_def)
  have rg: "rng st'' = rng st'"
    by (simp add: st''_def)
  from sample_vanilla_agent_snapshot_isolation[OF r al mu rg, of x0 None] r al
  show ?thesis unfolding st''_def by blast
qed



text \<open>
  Claim C3 (the built layer is the draw). For every Bayesian layer that the loop of
  \<^verbatim>\<open>sample_vanilla_agent\<close> visits, the layer built for it, followed by a Tanh, is
  in the result, and at the end of the loop its weight and its bias are exactly the tensors
  drawn from the weight sampler and then from the bias sampler when the layer was visited,
  not the values the constructor of the linear layer initialised; its \<^verbatim>\<open>in_features\<close>
  is the column count and its \<^verbatim>\<open>out_features\<close> the row count of the drawn weight. When
  the means have the shapes (out, in) and (out), the weight has shape
  (\<^verbatim>\<open>out_features\<close>, \<^verbatim>\<open>in_features\<close>) and the bias has length \<^verbatim>\<open>out_features\<close>.
\<close>

theorem bayesian_layer_gets_exact_draw:
  assumes run: "sample_layers (cs @ BayesianLinear a_layer # cs') st = Inr (ls, st')"
  shows "\<exists>ls1 st1 l ls2. sample_layers cs st = Inr (ls1, st1)
     \<and> ls = ls1 @ Linear l # Tanh # ls2
     \<and> heap st' (weight l) = fst (sampled_tensor (weight_sampler a_layer) st1)
     \<and> heap st' (bias l)
         = fst (sampled_tensor (bias_sampler a_layer) (snd (sample (weight_sampler a_layer) st1)))
     \<and> 2 \<le> length (shape (heap st' (weight l)))
     \<and> in_features l = shape (heap st' (weight l)) ! 1
     \<and> out_features l = shape (heap st' (weight l)) ! 0
     \<and> (\<forall>n_out n_in.
           shape (heap st1 (mu (weight_sampler a_layer))) = [n_out, n_in]
           \<and> shape (heap st1 (mu (bias_sampler a_layer))) = [n_out]
           \<and> mu (bias_sampler a_layer) < next_addr st1
           \<longrightarrow> shape (heap st' (weight l)) = [out_features l, in_features l]
               \<and> shape (heap st' (bias l)) = [out_features l]
               \<and> out_features l = n_out \<and> in_features l = n_in)"
proof -
  from run obtain ls1 st1 lsr where
    p1: "sample_layers cs st = Inr (ls1, st1)" and
    p2: "sample_layers (BayesianLinear a_layer # cs') st1 = Inr (lsr, st')" and
    ls: "ls = ls1 @ lsr"
    by (auto simp: sample_layers_append split: sum.splits)
  from p2 obtain lc st2 ls2 where
    c: "sample_component (BayesianLinear a_layer) st1 = Inr (lc, st2)" and
    p3: "sample_layers cs' st2 = Inr (ls2, st')" and lsr: "lsr = lc @ ls2"
    by (auto simp del: sample_component.simps split: sum.splits)
  from sample_component_BayesianLinear_eq[OF c] obtain l where
    lc: "lc = [Linear l, Tanh]"
    and ad: "weight l = next_addr st1" "bias l = Suc (next_addr st1)"
      "next_addr st2 = next_addr st1 + 4"
    and w: "heap st2 (weight l) = fst (sampled_tensor (weight_sampler a_layer) st1)"
    and b: "heap st2 (bias l)
         = fst (sampled_tensor (bias_sampler a_layer) (snd (sample (weight_sampler a_layer) st1)))"
    and r: "2 \<le> length (shape (heap st2 (weight l)))"
    and f: "in_features l = shape (heap st2 (weight l)) ! 1"
      "out_features l = shape (heap st2 (weight l)) ! 0"
    by blast
  have k3: "\<forall>a<next_addr st2. heap st' a = heap st2 a"
    using sample_layers_fresh[OF p3] by (simp add: grows_def)
  have e: "heap st' (weight l) = heap st2 (weight l)" "heap st' (bias l) = heap st2 (bias l)"
    using k3 ad by simp_all
  have sh: "shape (heap st' (weight l)) = [out_features l, in_features l]
               \<and> shape (heap st' (bias l)) = [out_features l]
               \<and> out_features l = n_out \<and> in_features l = n_in"
    if "shape (heap st1 (mu (weight_sampler a_layer))) = [n_out, n_in]
           \<and> shape (heap st1 (mu (bias_sampler a_layer))) = [n_out]
           \<and> mu (bias_sampler a_layer) < next_addr st1" for n_out n_in
    using that by (simp add: e w b f sampled_tensor_shape sample_heap_below)
  have "sample_layers cs st = Inr (ls1, st1)
     \<and> ls = ls1 @ Linear l # Tanh # ls2
     \<and> heap st' (weight l) = fst (sampled_tensor (weight_sampler a_layer) st1)
     \<and> heap st' (bias l)
         = fst (sampled_tensor (bias_sampler a_layer) (snd (sample (weight_sampler a_layer) st1)))
     \<and> 2 \<le> length (shape (heap st' (weight l)))
     \<and> in_features l = shape (heap st' (weight l)) ! 1
     \<and> out_features l = shape (heap st' (weight l)) ! 0"
    using p1 ls lsr lc w b r f by (simp add: e)
  with sh show ?thesis by blast
qed

theorem bayesian_layer_gets_exact_draw_witness:
  "\<exists>ls st'. sample_layers ([Plain (Linear lin0)] @ BayesianLinear bl0 # [Plain (Linear lin0)]) st0
               = Inr (ls, st')
     \<and> (\<exists>l l1 l2. ls = [Linear l1, Linear l, Tanh, Linear l2]
          \<and> heap st' (weight l) = \<lparr>shape = [1, 1], data = [1]\<rparr>
          \<and> heap st' (bias l) = \<lparr>shape = [1], data = [0]\<rparr>
          \<and> in_features l = 1 \<and> out_features l = 1)"
proof -
  have "\<exists>ls st'. sample_layers ([Plain (Linear lin0)] @ BayesianLinear bl0 # [Plain (Linear lin0)]) st0
                    = Inr (ls, st')"
    by (simp add: sample_def sampled_tensor_def alloc_def draw_def construct_vanilla_layer_def
        nn_Linear_def deepcopy_Linear_def bl0_def lin0_def st0_def heap0_def Let_def)
  then obtain ls st' where
    r: "sample_layers ([Plain (Linear lin0)] @ BayesianLinear bl0 # [Plain (Linear lin0)]) st0
          = Inr (ls, st')"
    by blast
  from bayesian_layer_gets_exact_draw[OF r] obtain ls1 st1 l ls2 where
    p1: "sample_layers [Plain (Linear lin0)] st0 = Inr (ls1, st1)"
    and ls: "ls = ls1 @ Linear l # Tanh # ls2"
    and w: "heap st' (weight l) = fst (sampled_tensor (weight_sampler bl0) st1)"
    and b: "heap st' (bias l)
         = fst (sampled_tensor (bias_sampler bl0) (snd (sample (weight_sampler bl0) st1)))"
    and f: "in_features l = shape (heap st' (weight l)) ! 1"
      "out_features l = shape (heap st' (weight l)) ! 0"
    by blast
  from p1 have st1: "st1 = snd (deepcopy_Linear lin0 st0)"
    and ls1: "\<exists>l1. ls1 = [Linear l1]"
    by (auto simp: Let_def split: prod.splits)
  have w1: "fst (sampled_tensor (weight_sampler bl0) st1) = \<lparr>shape = [1, 1], data = [1]\<rparr>"
    by (simp add: st1 deepcopy_Linear_def alloc_def sampled_tensor_def draw_def st0_def heap0_def
        bl0_def lin0_def Let_def)
  have b1: "fst (sampled_tensor (bias_sampler bl0) (snd (sample (weight_sampler bl0) st1)))
         = \<lparr>shape = [1], data = [0]\<rparr>"
    by (simp add: st1 deepcopy_Linear_def sample_def alloc_def sampled_tensor_def draw_def
        st0_def heap0_def bl0_def lin0_def Let_def)
  have l2: "\<exists>l2. ls2 = [Linear l2]"
  proof -
    have "length ls = 4"
      using sample_layers_length[OF r] by simp
    moreover have "length ls = 3 + length ls2" using ls ls1 by auto
    ultimately have n: "length ls2 = 1" by simp
    have "ls \<noteq> [] \<and> (\<exists>l2. last ls = Linear l2)"
      using r
      by (auto simp: sample_layers_append Let_def split: sum.splits prod.splits)
    with ls n show ?thesis
      by (cases ls2) auto
  qed
  from ls ls1 l2 w b f w1 b1 r show ?thesis by auto
qed

text \<open>
  Claim C5 (output layers are never Bayesian). Whatever \<^verbatim>\<open>number_of_cell_types\<close> is,
  the last component of the critic and the last component of the actor mean of a
  constructed \<^verbatim>\<open>BayesianAgent\<close> are plain linear layers.
\<close>

theorem output_layers_never_bayesian:
  assumes "BayesianAgent_init env number_of_cell_types st = Inr (self, st')"
  shows "(\<exists>l. last (critic self) = Plain (Linear l))
       \<and> (\<exists>l. last (actor_mean self) = Plain (Linear l))"
  using BayesianAgent_init_eq[OF assms] by auto

theorem output_layers_never_bayesian_witness:
  "\<exists>self st'. BayesianAgent_init env0 256 st0 = Inr (self, st')
     \<and> (\<exists>l. last (critic self) = Plain (Linear l))
     \<and> (\<exists>l. last (actor_mean self) = Plain (Linear l))"
proof -
  have "\<exists>self st'. BayesianAgent_init env0 256 st0 = Inr (self, st')"
    by (simp add: BayesianAgent_init_def env0_def np_prod_def Let_def split: prod.splits)
  then obtain self st' where r: "BayesianAgent_init env0 256 st0 = Inr (self, st')" by blast
  from output_layers_never_bayesian[OF r] r show ?thesis by blast
qed

text \<open>
  Claim C6 (other components are dropped silently). A component that is neither a Bayesian
  layer nor a plain linear layer, that is a Tanh or a module of any other class, appends
  nothing, raises nothing and leaves the state as it is; the sampled sequence is the one of
  the sequence without that component.
\<close>

theorem unrecognised_component_dropped:
  "sample_component (Plain Tanh) st = Inr ([], st)
   \<and> sample_component (Other cls) st = Inr ([], st)
   \<and> sample_layers (cs @ Plain Tanh # cs') st = sample_layers (cs @ cs') st
   \<and> sample_layers (cs @ Other cls # cs') st = sample_layers (cs @ cs') st"
  by (auto simp: sample_layers_append split: sum.splits)

theorem unrecognised_component_dropped_witness:
  "sample_layers ([Plain (Linear lin0)] @ Plain Tanh # [Plain (Linear lin0)]) st0
     = sample_layers ([Plain (Linear lin0)] @ [Plain (Linear lin0)]) st0
   \<and> sample_layers ([Plain (Linear lin0)] @ Other ''ReLU'' # [Plain (Linear lin0)]) st0
     = sample_layers ([Plain (Linear lin0)] @ [Plain (Linear lin0)]) st0"
  using unrecognised_component_dropped[where st = st0 and cls = "''ReLU''"
      and cs = "[Plain (Linear lin0)]" and cs' = "[Plain (Linear lin0)]"]
  by blast

section \<open>Shapes of the outputs\<close>

lemma has_shapeI:
  "nrows m = B \<Longrightarrow> ncols m = D \<Longrightarrow> (\<And>r. r \<in> set (rows m) \<Longrightarrow> length r = D) \<Longrightarrow> has_shape m B D"
  by (simp add: has_shape_def list_all_iff)

lemma has_shapeD:
  assumes "has_shape m B D"
  shows "nrows m = B" "ncols m = D" "\<And>i. i < B \<Longrightarrow> length (rows m ! i) = D"
  using assms by (auto simp: has_shape_def list_all_iff)

lemma F_linear_shape:
  assumes "shape W = [n_out, n_in]" "shape b = [n_out]" "ncols x = n_in"
  shows "\<exists>y. F_linear x W b = Inr y \<and> (\<forall>B. nrows x = B \<longrightarrow> has_shape y B n_out)"
  using assms by (auto simp: F_linear_def has_shape_def list_all_iff)

lemma wf_net_forward:
  "wf_net ls st d d' \<Longrightarrow> has_shape x B d \<Longrightarrow>
     \<exists>y. Sequential_forward ls x st = Inr y \<and> has_shape y B d'"
proof (induction ls arbitrary: x d)
  case Nil
  then show ?case by simp
next
  case (Cons lay ls)
  show ?case
  proof (cases lay)
    case (Linear l)
    from Cons.prems(1) Linear obtain n_out where
      W: "shape (heap st (weight l)) = [n_out, d]" and b: "shape (heap st (bias l)) = [n_out]"
      and r: "wf_net ls st n_out d'"
      by (auto split: list.splits)
    from F_linear_shape[OF W b, of x] Cons.prems(2) obtain y where
      y: "F_linear x (heap st (weight l)) (heap st (bias l)) = Inr y" "has_shape y B n_out"
      by (auto simp: has_shape_def)
    from Cons.IH[OF r y(2)] y(1) Linear show ?thesis by simp
  next
    case Tanh
    have "has_shape \<lparr>ncols = ncols x, rows = map (map tanh) (rows x)\<rparr> B d"
      using Cons.prems(2) by (auto simp: has_shape_def list_all_iff)
    from Cons.IH[OF _ this] Cons.prems(1) Tanh show ?thesis by simp
  qed
qed

lemma wf_net_cong: "heap st = heap st' \<Longrightarrow> wf_net ls st d d' = wf_net ls st' d d'"
proof (induction ls arbitrary: d)
  case Nil
  then show ?case by simp
next
  case (Cons lay ls)
  then show ?case by (cases lay) (auto split: list.splits)
qed

lemma elem_in: "has_shape m B D \<Longrightarrow> i < B \<Longrightarrow> j < D \<Longrightarrow> elem m i j = rows m ! i ! j"
  by (auto simp: elem_def has_shape_def)

lemma expand_as_row:
  assumes "shape t = [1, D]" "has_shape m B D"
  shows "\<exists>y. expand_as t m = Inr y \<and> has_shape y B D
           \<and> rows y = replicate B (map (\<lambda>j. data t ! j) [0..<D])"
proof -
  have "map (\<lambda>j. data t ! (if D = 1 then 0 else j)) [0..<D] = map (\<lambda>j. data t ! j) [0..<D]"
    by (rule map_cong) auto
  then show ?thesis
    using assms
    by (auto simp: expand_as_def as_2d_def has_shape_def list_all_iff map_replicate_const)
qed

lemma Normal_exp:
  "Normal l (torch_exp s) = Inr \<lparr>loc = l, scale = torch_exp s\<rparr>"
  by (auto simp: Normal_def torch_exp_def list_all_iff)

lemma torch_exp_shape: "has_shape s B D \<Longrightarrow> has_shape (torch_exp s) B D"
  by (auto simp: torch_exp_def has_shape_def list_all_iff)

lemma Normal_sample_shape:
  "has_shape (loc p) B D \<Longrightarrow> has_shape (fst (Normal_sample p st)) B D"
  by (auto simp: Normal_sample_def draw_def Let_def has_shape_def list_all_iff)

lemma Normal_log_prob_shape:
  assumes "has_shape (loc p) B D" "has_shape (scale p) B D" "has_shape a B D"
  shows "\<exists>m. Normal_log_prob p a = Inr m \<and> length (sum1 m) = B
     \<and> (\<forall>i<B. sum1 m ! i
          = (\<Sum>j<D. log_density (rows (loc p) ! i ! j) (rows (scale p) ! i ! j) (rows a ! i ! j)))"
proof -
  have b: "broadcast_dim (nrows a) (nrows (loc p)) = Some B"
    "broadcast_dim (ncols a) (ncols (loc p)) = Some D"
    using assms by (simp_all add: broadcast_dim_def has_shape_def)
  have "sum_list (map (\<lambda>j. log_density (elem (loc p) i j) (elem (scale p) i j) (elem a i j)) [0..<D])
      = (\<Sum>j<D. log_density (rows (loc p) ! i ! j) (rows (scale p) ! i ! j) (rows a ! i ! j))"
    if "i < B" for i
    using that assms by (simp add: interv_sum_list_conv_sum_set_nat elem_in atLeast0LessThan)
  then show ?thesis
    using b by (simp add: Normal_log_prob_def sum1_def)
qed

lemma Normal_entropy_shape:
  assumes "has_shape (scale p) B D"
  shows "length (sum1 (Normal_entropy p)) = B
     \<and> (\<forall>i<B. sum1 (Normal_entropy p) ! i
          = (\<Sum>j<D. 1 / 2 + 1 / 2 * ln (2 * pi) + ln (rows (scale p) ! i ! j)))"
proof -
  have "sum_list (map (\<lambda>s. 1 / 2 + 1 / 2 * ln (2 * pi) + ln s) (rows (scale p) ! i))
      = (\<Sum>j<D. 1 / 2 + 1 / 2 * ln (2 * pi) + ln (rows (scale p) ! i ! j))"
    if "i < B" for i
  proof -
    have "length (rows (scale p) ! i) = D" using has_shapeD(3)[OF assms that] .
    then show ?thesis
      by (simp add: sum_list_sum_nth atLeast0LessThan)
  qed
  then show ?thesis
    using has_shapeD(1)[OF assms] by (simp add: Normal_entropy_def sum1_def)
qed

lemma action_probs_well_shaped:
  assumes ws: "well_shaped self st obs D" and x: "has_shape x B obs"
  shows "\<exists>p. action_probs self x st = Inr p \<and> has_shape (loc p) B D \<and> has_shape (scale p) B D"
proof -
  from ws x obtain mean where
    m: "Sequential_forward (actor_mean self) x st = Inr mean" "has_shape mean B D"
    using wf_net_forward[of "actor_mean self" st obs D x B] by (auto simp: well_shaped_def)
  from ws have "shape (heap st (actor_logstd self)) = [1, D]" by (simp add: well_shaped_def)
  from expand_as_row[OF this m(2)] obtain y where
    y: "expand_as (heap st (actor_logstd self)) mean = Inr y" "has_shape y B D" by blast
  show ?thesis
    using m y by (simp add: action_probs_def Normal_exp torch_exp_shape)
qed

lemma get_action_and_value_well_shaped:
  assumes ws: "well_shaped self st obs D" and x: "has_shape x B obs"
    and act: "action = None \<or> (\<exists>a0. action = Some a0 \<and> has_shape a0 B D)"
  shows "\<exists>a lp ent v st' p.
       get_action_and_value self x action st = Inr ((a, lp, ent, v), st')
     \<and> action_probs self x st = Inr p
     \<and> has_shape a B D \<and> length lp = B \<and> length ent = B \<and> has_shape v B 1
     \<and> (\<forall>i<B. lp ! i
           = (\<Sum>j<D. log_density (rows (loc p) ! i ! j) (rows (scale p) ! i ! j) (rows a ! i ! j))
          \<and> ent ! i = (\<Sum>j<D. 1 / 2 + 1 / 2 * ln (2 * pi) + ln (rows (scale p) ! i ! j)))"
proof -
  from action_probs_well_shaped[OF ws x] obtain p where
    p: "action_probs self x st = Inr p" "has_shape (loc p) B D" "has_shape (scale p) B D"
    by blast
  obtain a st1 where
    a: "(case action of None \<Rightarrow> Normal_sample p st | Some a \<Rightarrow> (a, st)) = (a, st1)"
    by (cases "case action of None \<Rightarrow> Normal_sample p st | Some a \<Rightarrow> (a, st)")
  have ash: "has_shape a B D"
    using act a Normal_sample_shape[OF p(2), of st] by (auto split: option.splits)
  have h1: "heap st1 = heap st"
    using a by (auto split: option.splits dest: Normal_sample_heap)
  from Normal_log_prob_shape[OF p(2,3) ash] obtain m where
    m: "Normal_log_prob p a = Inr m" "length (sum1 m) = B"
    "\<forall>i<B. sum1 m ! i
          = (\<Sum>j<D. log_density (rows (loc p) ! i ! j) (rows (scale p) ! i ! j) (rows a ! i ! j))"
    by blast
  from ws have "wf_net (critic self) st1 obs 1"
    using wf_net_cong[OF h1] by (simp add: well_shaped_def)
  from wf_net_forward[OF this x] obtain v where
    v: "Sequential_forward (critic self) x st1 = Inr v" "has_shape v B 1" by blast
  have "get_action_and_value self x action st
      = Inr ((a, sum1 m, sum1 (Normal_entropy p), v), st1)"
    using p(1) a m(1) v(1) by (simp add: get_action_and_value_def)
  with p ash m v Normal_entropy_shape[OF p(3)] show ?thesis by blast
qed

lemma Agent_init_env48: "\<exists>self st. Agent_init env48 st0 = Inr (self, st)"
  by (simp add: Agent_init_def env48_def np_prod_def Let_def split: prod.splits)

lemma ag0_well_shaped: "well_shaped ag0 st0 1 1"
  by (simp add: well_shaped_def ag0_def lin0_def st0_def heap0_def)

lemma x0_shape: "has_shape x0 2 1"
  by (simp add: has_shape_def x0_def)

lemma a0_shape: "has_shape a0 2 1"
  by (simp add: has_shape_def a0_def)

lemma Sequential_forward_shape_indep:
  "Sequential_forward ls x st = Inr y \<Longrightarrow> Sequential_forward ls x' st = Inr y' \<Longrightarrow>
     ncols x = ncols x' \<Longrightarrow> nrows x = nrows x' \<Longrightarrow> ncols y = ncols y' \<and> nrows y = nrows y'"
proof (induction ls arbitrary: x x')
  case Nil
  then show ?case by simp
next
  case (Cons l ls)
  from Cons.prems obtain z z' where
    z: "layer_forward l x st = Inr z" "Sequential_forward ls z st = Inr y"
    and z': "layer_forward l x' st = Inr z'" "Sequential_forward ls z' st = Inr y'"
    by (auto split: sum.splits)
  have "ncols z = ncols z' \<and> nrows z = nrows z'"
    using z(1) z'(1) Cons.prems(3,4)
    by (cases l) (auto simp: F_linear_def split: list.splits if_splits)
  with Cons.IH[OF z(2) z'(2)] show ?case by simp
qed

lemma Sequential_forward_nrows:
  "Sequential_forward ls x st = Inr y \<Longrightarrow> nrows y = nrows x"
proof (induction ls arbitrary: x)
  case Nil
  then show ?case by simp
next
  case (Cons l ls)
  from Cons.prems obtain z where
    z: "layer_forward l x st = Inr z" "Sequential_forward ls z st = Inr y"
    by (auto split: sum.splits)
  have "nrows z = nrows x"
    using z(1) by (cases l) (auto simp: F_linear_def split: list.splits if_splits)
  with Cons.IH[OF z(2)] show ?case by simp
qed

lemma action_probs_parts:
  assumes "action_probs self x st = Inr p"
  shows "\<exists>mean ls. Sequential_forward (actor_mean self) x st = Inr mean
           \<and> expand_as (heap st (actor_logstd self)) mean = Inr ls
           \<and> p = \<lparr>loc = mean, scale = torch_exp ls\<rparr>"
  using assms by (auto simp: action_probs_def Normal_exp split: sum.splits)

lemma expand_as_ncols: "expand_as t m = Inr y \<Longrightarrow> ncols y = ncols m"
  by (auto simp: expand_as_def split: option.splits if_splits)

lemma action_probs_scale:
  assumes p: "action_probs self x st = Inr p"
    and sh: "shape (heap st (actor_logstd self)) = [1, D]"
  shows "nrows (loc p) = nrows x \<and> (D = ncols (loc p) \<or> D = 1)
       \<and> rows (scale p)
         = replicate (nrows x)
             (map (\<lambda>j. exp (data (heap st (actor_logstd self)) ! (if D = 1 then 0 else j)))
                  [0..<ncols (loc p)])"
proof -
  from action_probs_parts[OF p] obtain mean ls where
    m: "Sequential_forward (actor_mean self) x st = Inr mean"
    and e: "expand_as (heap st (actor_logstd self)) mean = Inr ls"
    and pp: "p = \<lparr>loc = mean, scale = torch_exp ls\<rparr>"
    by blast
  have nr: "nrows mean = nrows x" by (rule Sequential_forward_nrows[OF m])
  from e sh have c: "D = ncols mean \<or> D = 1"
    and r: "rows ls = map (\<lambda>i. map (\<lambda>j. data (heap st (actor_logstd self)) ! (if D = 1 then 0 else j))
                                  [0..<ncols mean]) [0..<nrows mean]"
    by (auto simp: expand_as_def as_2d_def split: if_splits)
  show ?thesis
    using c nr by (simp add: pp torch_exp_def r map_replicate_const comp_def)
qed

lemma action_probs_scale_rows:
  assumes p: "action_probs self x st = Inr p"
    and sh: "shape (heap st (actor_logstd self)) = [1, D]"
  shows "rows (scale p) = replicate (nrows x)
             (map (\<lambda>j. exp (data (heap st (actor_logstd self)) ! (if D = 1 then 0 else j)))
                  [0..<ncols (loc p)])"
  using action_probs_scale[OF p sh] by (elim conjE)

lemma action_probs_scale_nth:
  assumes p: "action_probs self x st = Inr p"
    and sh: "shape (heap st (actor_logstd self)) = [1, D]"
    and "i < nrows x" "j < ncols (loc p)"
  shows "rows (scale p) ! i ! j
              = exp (data (heap st (actor_logstd self)) ! (if D = 1 then 0 else j))"
  using assms(3,4) by (simp add: action_probs_scale_rows[OF p sh])

lemma action_probs_scale_indep:
  assumes p: "action_probs self x st = Inr p"
    and sh: "shape (heap st (actor_logstd self)) = [1, D]"
    and p': "action_probs self x' st = Inr p'" and nx: "nrows x' = nrows x" "ncols x' = ncols x"
  shows "scale p' = scale p"
proof -
    from action_probs_parts[OF p] obtain mean ls where
      m: "Sequential_forward (actor_mean self) x st = Inr mean"
      and e: "expand_as (heap st (actor_logstd self)) mean = Inr ls"
      and pp: "p = \<lparr>loc = mean, scale = torch_exp ls\<rparr>"
      by blast
    from action_probs_parts[OF p'] obtain mean' ls' where
      m': "Sequential_forward (actor_mean self) x' st = Inr mean'"
      and e': "expand_as (heap st (actor_logstd self)) mean' = Inr ls'"
      and pp': "p' = \<lparr>loc = mean', scale = torch_exp ls'\<rparr>"
      by blast
    have l: "loc p = mean" "loc p' = mean'" using pp pp' by simp_all
    have c: "ncols (scale p) = ncols mean" "ncols (scale p') = ncols mean'"
      using pp pp' expand_as_ncols[OF e] expand_as_ncols[OF e']
      by (simp_all add: torch_exp_def)
    have mm: "ncols mean' = ncols mean"
      using Sequential_forward_shape_indep[OF m m'] nx by simp
    have "rows (scale p') = rows (scale p)"
      by (simp add: action_probs_scale_rows[OF p sh] action_probs_scale_rows[OF p' sh] l mm nx)
    moreover have "ncols (scale p') = ncols (scale p)"
      by (simp add: c mm)
    ultimately show ?thesis by simp
qed

text \<open>
  Claim C4 (shapes and reduction). For an agent that is well shaped for \<open>obs\<close> observation
  features and \<open>D\<close> action dimensions, an observation batch of shape (B, obs) and no action
  (or an action of shape (B, D)), \<^verbatim>\<open>get_action_and_value\<close> returns an action of shape
  (B, D), a log-probability and an entropy of length B and a value of shape (B, 1); the
  log-probability and the entropy of batch element \<open>i\<close> are the sums over the \<open>D\<close>
  dimensions of the Gaussian log-densities and entropies. The witness is the example of the
  specification: shape (2, 48), 12 action dimensions, no action.
\<close>

theorem get_action_and_value_shapes:
  assumes "well_shaped self st obs D" and "has_shape x B obs"
    and "action = None \<or> (\<exists>a0. action = Some a0 \<and> has_shape a0 B D)"
  shows "\<exists>a lp ent v st'.
       get_action_and_value self x action st = Inr ((a, lp, ent, v), st')
     \<and> has_shape a B D \<and> length lp = B \<and> length ent = B \<and> has_shape v B 1
     \<and> (\<exists>p. action_probs self x st = Inr p
          \<and> (\<forall>i<B. lp ! i = (\<Sum>j<D. log_density (rows (loc p) ! i ! j) (rows (scale p) ! i ! j)
                                       (rows a ! i ! j)))
          \<and> (\<forall>i<B. ent ! i = (\<Sum>j<D. 1 / 2 + 1 / 2 * ln (2 * pi) + ln (rows (scale p) ! i ! j))))"
  using get_action_and_value_well_shaped[OF assms] by blast

theorem get_action_and_value_shapes_witness:
  "\<exists>self st. Agent_init env48 st0 = Inr (self, st)
     \<and> well_shaped self st 48 12 \<and> has_shape x48 2 48
     \<and> (\<exists>a lp ent v st'.
          get_action_and_value self x48 None st = Inr ((a, lp, ent, v), st')
        \<and> has_shape a 2 12 \<and> length lp = 2 \<and> length ent = 2 \<and> has_shape v 2 1)"
proof -
  from Agent_init_env48 obtain self st where r: "Agent_init env48 st0 = Inr (self, st)"
    by blast
  from Agent_init_eq(1)[OF r] have ws: "well_shaped self st 48 12"
    by (simp add: env48_def np_prod_def)
  have x: "has_shape x48 2 48"
    by (simp add: has_shape_def x48_def)
  from get_action_and_value_shapes[OF ws x, of None] r ws x show ?thesis
    by blast
qed

text \<open>
  Claim C7 (the fourth value is the critic's output). Whenever \<^verbatim>\<open>get_action_and_value\<close>
  returns, with or without an action, its fourth value is what \<^verbatim>\<open>get_value\<close> returns for
  the same observation; and \<^verbatim>\<open>get_value\<close> changes no state and depends on the state only
  through the parameters of the critic.
\<close>

theorem value_is_critic_output:
  assumes "get_action_and_value self x action st = Inr ((a, lp, ent, v), st')"
  shows "get_value self x st = Inr v
       \<and> (\<forall>s. (\<forall>k\<in>net_addrs (critic self). heap s k = heap st k) \<longrightarrow> get_value self x s = Inr v)"
proof -
  from assms obtain p where p: "action_probs self x st = Inr p"
    by (auto simp: get_action_and_value_def split: sum.splits)
  obtain a1 st1 where
    a: "(case action of None \<Rightarrow> Normal_sample p st | Some a \<Rightarrow> (a, st)) = (a1, st1)"
    by (cases "case action of None \<Rightarrow> Normal_sample p st | Some a \<Rightarrow> (a, st)")
  have h1: "heap st1 = heap st"
    using a by (auto split: option.splits dest: Normal_sample_heap)
  from assms p a have "Sequential_forward (critic self) x st1 = Inr v"
    by (auto simp: get_action_and_value_def split: sum.splits)
  moreover have "Sequential_forward (critic self) x s = Sequential_forward (critic self) x st1"
    if "\<forall>k\<in>net_addrs (critic self). heap s k = heap st k" for s
    using that h1 by (intro Sequential_forward_cong) simp
  ultimately show ?thesis
    by (simp add: get_value_def)
qed

theorem value_is_critic_output_witness:
  "\<exists>a lp ent v st'. get_action_and_value ag0 x0 None st0 = Inr ((a, lp, ent, v), st')
     \<and> get_value ag0 x0 st0 = Inr v
     \<and> get_value ag0 x0 (st0\<lparr>heap := (heap st0)(6 := zeros [1, 1])\<rparr>) = Inr v"
proof -
  from get_action_and_value_well_shaped[OF ag0_well_shaped x0_shape, of None]
  obtain a lp ent v st' where
    r: "get_action_and_value ag0 x0 None st0 = Inr ((a, lp, ent, v), st')" by blast
  have "\<forall>k\<in>net_addrs (critic ag0). heap (st0\<lparr>heap := (heap st0)(6 := zeros [1, 1])\<rparr>) k = heap st0 k"
    by (simp add: ag0_def lin0_def)
  with value_is_critic_output[OF r] r show ?thesis by blast
qed

text \<open>
  Claim C8 (state-independent standard deviation). With \<^verbatim>\<open>actor_logstd\<close> of shape (1, D),
  the scale of the policy distribution has one row per batch element, every row holds in
  dimension \<open>j\<close> the exponential of the log standard deviation of that dimension, and two
  observation batches of one shape give the same scale whatever they contain.
\<close>

theorem action_std_state_independent:
  assumes p: "action_probs self x st = Inr p"
    and sh: "shape (heap st (actor_logstd self)) = [1, D]"
  shows "nrows (scale p) = nrows x
       \<and> (\<forall>i<nrows x. \<forall>j<ncols (loc p).
            rows (scale p) ! i ! j
              = exp (data (heap st (actor_logstd self)) ! (if D = 1 then 0 else j)))
       \<and> (\<forall>x' p'. action_probs self x' st = Inr p' \<and> nrows x' = nrows x \<and> ncols x' = ncols x
            \<longrightarrow> scale p' = scale p)"
proof -
  have 1: "nrows (scale p) = nrows x"
    by (simp add: action_probs_scale_rows[OF p sh])
  have 2: "\<forall>i<nrows x. \<forall>j<ncols (loc p).
            rows (scale p) ! i ! j
              = exp (data (heap st (actor_logstd self)) ! (if D = 1 then 0 else j))"
    using action_probs_scale_nth[OF p sh] by blast
  have 3: "\<forall>x' p'. action_probs self x' st = Inr p' \<and> nrows x' = nrows x \<and> ncols x' = ncols x
            \<longrightarrow> scale p' = scale p"
    using action_probs_scale_indep[OF p sh] by blast
  show ?thesis
    by (rule conjI, fact 1, rule conjI, fact 2, fact 3)
qed

theorem action_std_state_independent_witness:
  "\<exists>p. action_probs ag0 x0 st0 = Inr p
     \<and> shape (heap st0 (actor_logstd ag0)) = [1, 1]
     \<and> nrows (scale p) = 2
     \<and> rows (scale p) ! 0 ! 0 = 1 \<and> rows (scale p) ! 1 ! 0 = 1"
proof -
  from action_probs_well_shaped[OF ag0_well_shaped x0_shape] obtain p where
    p: "action_probs ag0 x0 st0 = Inr p" and lp: "has_shape (loc p) 2 1" by blast
  have sh: "shape (heap st0 (actor_logstd ag0)) = [1, 1]"
    by (simp add: ag0_def st0_def heap0_def)
  have d: "data (heap st0 (actor_logstd ag0)) ! 0 = 0"
    by (simp add: ag0_def st0_def heap0_def)
  have nx: "nrows x0 = 2" by (simp add: x0_def)
  have nc: "ncols (loc p) = 1" using lp by (simp add: has_shape_def)
  note T = action_std_state_independent[OF p sh]
  from T have a: "nrows (scale p) = 2" by (simp add: nx)
  from T have "\<forall>i<nrows x0. \<forall>j<ncols (loc p).
            rows (scale p) ! i ! j = exp (data (heap st0 (actor_logstd ag0)) ! 0)"
    by simp
  then have b: "rows (scale p) ! 0 ! 0 = 1" "rows (scale p) ! 1 ! 0 = 1"
    by (simp_all add: nx nc d)
  from p sh a b show ?thesis by blast
qed

lemma get_action_and_value_Some:
  assumes "get_action_and_value self x (Some action) st = Inr ((a, lp, ent, v), st')"
  shows "a = action \<and> st' = st
       \<and> (\<exists>p m. action_probs self x st = Inr p \<and> Normal_log_prob p action = Inr m
            \<and> lp = sum1 m \<and> ent = sum1 (Normal_entropy p))"
  using assms by (auto simp: get_action_and_value_def split: sum.splits)

lemma expand_as_rows:
  assumes "expand_as t m = Inr y"
  shows "ncols y = ncols m" "nrows y = nrows m"
    "\<And>i. i < nrows m \<Longrightarrow> length (rows y ! i) = ncols m"
    "\<And>D i j. shape t = [1, D] \<Longrightarrow> i < nrows m \<Longrightarrow> j < ncols m \<Longrightarrow>
        rows y ! i ! j = data t ! (if D = 1 then 0 else j)"
  using assms
  by (auto simp: expand_as_def as_2d_def split: option.splits if_splits)

lemma broadcast_dim_index:
  "broadcast_dim a b = Some R \<Longrightarrow> i < R \<Longrightarrow> (if b = 1 then 0 else i) < b"
  by (auto simp: broadcast_dim_def split: if_splits)

lemma elem_torch_exp:
  assumes "(if nrows ls = 1 then 0 else i) < nrows ls"
    and "(if ncols ls = 1 then 0 else j) < length (rows ls ! (if nrows ls = 1 then 0 else i))"
  shows "elem (torch_exp ls) i j = exp (elem ls i j)"
  using assms by (simp add: elem_def torch_exp_def)

lemma Normal_log_prob_rows:
  assumes "Normal_log_prob p v = Inr m"
  shows "\<exists>R C. broadcast_dim (nrows v) (nrows (loc p)) = Some R
           \<and> broadcast_dim (ncols v) (ncols (loc p)) = Some C
           \<and> sum1 m = map (\<lambda>i. \<Sum>j<C. log_density (elem (loc p) i j) (elem (scale p) i j) (elem v i j))
                           [0..<R]"
  using assms
  by (auto simp: Normal_log_prob_def sum1_def comp_def interv_sum_list_conv_sum_set_nat
      atLeast0LessThan split: option.splits)

lemma Normal_entropy_rows:
  assumes n: "nrows s = B" and r: "\<And>i. i < B \<Longrightarrow> length (rows s ! i) = D"
  shows "sum1 (Normal_entropy \<lparr>loc = l, scale = torch_exp s\<rparr>)
       = map (\<lambda>i. \<Sum>j<D. 1 / 2 + 1 / 2 * ln (2 * pi) + ln (exp (rows s ! i ! j))) [0..<B]"
proof (rule nth_equalityI)
  show "length (sum1 (Normal_entropy \<lparr>loc = l, scale = torch_exp s\<rparr>))
      = length (map (\<lambda>i. \<Sum>j<D. 1 / 2 + 1 / 2 * ln (2 * pi) + ln (exp (rows s ! i ! j))) [0..<B])"
    using n by (simp add: sum1_def Normal_entropy_def torch_exp_def)
next
  fix i assume "i < length (sum1 (Normal_entropy \<lparr>loc = l, scale = torch_exp s\<rparr>))"
  then have i: "i < B" using n by (simp add: sum1_def Normal_entropy_def torch_exp_def)
  have "sum_list (map (\<lambda>s. 1 / 2 + 1 / 2 * ln (2 * pi) + ln s) (map exp (rows s ! i)))
      = (\<Sum>j<D. 1 / 2 + 1 / 2 * ln (2 * pi) + ln (exp (rows s ! i ! j)))"
    using r[OF i] by (simp add: sum_list_sum_nth atLeast0LessThan del: ln_exp)
  then show "sum1 (Normal_entropy \<lparr>loc = l, scale = torch_exp s\<rparr>) ! i
      = map (\<lambda>i. \<Sum>j<D. 1 / 2 + 1 / 2 * ln (2 * pi) + ln (exp (rows s ! i ! j))) [0..<B] ! i"
    using i n by (simp add: sum1_def Normal_entropy_def torch_exp_def del: ln_exp)
qed

lemma log_prob_explicit:
  assumes m: "Normal_log_prob \<lparr>loc = mean, scale = torch_exp ls\<rparr> v = Inr m"
    and e: "expand_as t mean = Inr ls"
  shows "\<exists>R C. broadcast_dim (nrows v) (nrows mean) = Some R
           \<and> broadcast_dim (ncols v) (ncols mean) = Some C
           \<and> sum1 m = map (\<lambda>i. \<Sum>j<C. - ((elem v i j - elem mean i j)\<^sup>2)
                                          / (2 * (exp (elem ls i j))\<^sup>2)
                                        - ln (exp (elem ls i j)) - ln (sqrt (2 * pi)))
                           [0..<R]"
proof -
  from Normal_log_prob_rows[OF m] obtain R C where
    R: "broadcast_dim (nrows v) (nrows mean) = Some R"
    and C: "broadcast_dim (ncols v) (ncols mean) = Some C"
    and s: "sum1 m = map (\<lambda>i. \<Sum>j<C. log_density (elem mean i j) (elem (torch_exp ls) i j) (elem v i j))
                           [0..<R]"
    by auto
  note E = expand_as_rows[OF e]
  have x: "elem (torch_exp ls) i j = exp (elem ls i j)" if "i < R" "j < C" for i j
  proof (rule elem_torch_exp)
    show i': "(if nrows ls = 1 then 0 else i) < nrows ls"
      using broadcast_dim_index[OF R that(1)] E(2) by simp
    have "(if ncols ls = 1 then 0 else j) < ncols mean"
      using broadcast_dim_index[OF C that(2)] E(1) by simp
    moreover have "length (rows ls ! (if nrows ls = 1 then 0 else i)) = ncols mean"
      using E(3) i' E(2) by simp
    ultimately show "(if ncols ls = 1 then 0 else j) < length (rows ls ! (if nrows ls = 1 then 0 else i))"
      by simp
  qed
  have "map (\<lambda>i. \<Sum>j<C. log_density (elem mean i j) (elem (torch_exp ls) i j) (elem v i j)) [0..<R]
      = map (\<lambda>i. \<Sum>j<C. - ((elem v i j - elem mean i j)\<^sup>2) / (2 * (exp (elem ls i j))\<^sup>2)
                        - ln (exp (elem ls i j)) - ln (sqrt (2 * pi))) [0..<R]"
  proof (rule map_cong[OF refl])
    fix i assume "i \<in> set [0..<R]"
    then have i: "i < R" by simp
    show "(\<Sum>j<C. log_density (elem mean i j) (elem (torch_exp ls) i j) (elem v i j))
        = (\<Sum>j<C. - ((elem v i j - elem mean i j)\<^sup>2) / (2 * (exp (elem ls i j))\<^sup>2)
                        - ln (exp (elem ls i j)) - ln (sqrt (2 * pi)))"
      by (rule sum.cong[OF refl]) (simp add: x[OF i] log_density_def del: ln_exp)
  qed
  with R C s show ?thesis by simp
qed

lemma mean_ag0:
  "Sequential_forward (actor_mean ag0) x0 st0 = Inr \<lparr>ncols = 1, rows = [[2], [4]]\<rparr>"
  by (simp add: ag0_def lin0_def st0_def heap0_def x0_def F_linear_def dot_def row_of_def)

lemma list2_eq: "length xs = 2 \<Longrightarrow> xs ! 0 = a \<Longrightarrow> xs ! 1 = b \<Longrightarrow> xs = [a, b]"
  by (cases xs; cases "tl xs") auto

text \<open>
  Claim C10 (a supplied action is returned as it is). When an action is supplied, the first
  value returned is that action and the random source is not advanced. With the mean the
  output of the actor-mean network for the observation and the log standard deviation the
  parameter \<^verbatim>\<open>actor_logstd\<close> expanded to the shape of the mean, the log-probability of a
  row is the sum over the action dimensions of the Gaussian log-density of the supplied
  action, the standard deviation being the exponential of the log standard deviation, and
  the entropy of a row is the sum of the entropies of these Gaussians. For
  \<^verbatim>\<open>actor_logstd\<close> of shape (1, D) and an action of the shape of the mean both are
  spelt out in the elements of the action, of the mean and of \<^verbatim>\<open>actor_logstd\<close>.
\<close>

theorem supplied_action_returned:
  assumes "get_action_and_value self x (Some action) st = Inr ((a, lp, ent, v), st')"
  shows "a = action \<and> st' = st
     \<and> (\<exists>mean logstd R C.
          Sequential_forward (actor_mean self) x st = Inr mean
        \<and> expand_as (heap st (actor_logstd self)) mean = Inr logstd
        \<and> broadcast_dim (nrows action) (nrows mean) = Some R
        \<and> broadcast_dim (ncols action) (ncols mean) = Some C
        \<and> lp = map (\<lambda>i. \<Sum>j<C. - ((elem action i j - elem mean i j)\<^sup>2)
                                    / (2 * (exp (elem logstd i j))\<^sup>2)
                                  - ln (exp (elem logstd i j)) - ln (sqrt (2 * pi)))
                     [0..<R]
        \<and> ent = map (\<lambda>i. \<Sum>j<ncols mean. 1 / 2 + 1 / 2 * ln (2 * pi) + ln (exp (rows logstd ! i ! j)))
                      [0..<nrows mean]
        \<and> (\<forall>D. shape (heap st (actor_logstd self)) = [1, D]
                 \<and> nrows action = nrows mean \<and> ncols action = ncols mean \<longrightarrow>
               length lp = nrows mean \<and> length ent = nrows mean
             \<and> (\<forall>i<nrows mean.
                  lp ! i = (\<Sum>j<ncols mean.
                     - ((rows action ! i ! j - rows mean ! i ! j)\<^sup>2)
                       / (2 * (exp (data (heap st (actor_logstd self)) ! (if D = 1 then 0 else j)))\<^sup>2)
                     - ln (exp (data (heap st (actor_logstd self)) ! (if D = 1 then 0 else j)))
                     - ln (sqrt (2 * pi)))
                \<and> ent ! i = (\<Sum>j<ncols mean.
                     1 / 2 + 1 / 2 * ln (2 * pi)
                     + ln (exp (data (heap st (actor_logstd self)) ! (if D = 1 then 0 else j)))))))"
proof -
  from get_action_and_value_Some[OF assms] obtain p m where
    a: "a = action" "st' = st"
    and p: "action_probs self x st = Inr p"
    and m: "Normal_log_prob p action = Inr m"
    and lp: "lp = sum1 m" and ent: "ent = sum1 (Normal_entropy p)"
    by blast
  from action_probs_parts[OF p] obtain mean ls where
    mean: "Sequential_forward (actor_mean self) x st = Inr mean"
    and e: "expand_as (heap st (actor_logstd self)) mean = Inr ls"
    and pp: "p = \<lparr>loc = mean, scale = torch_exp ls\<rparr>"
    by blast
  note E = expand_as_rows[OF e]
  from log_prob_explicit[OF m[unfolded pp] e] obtain R C where
    R: "broadcast_dim (nrows action) (nrows mean) = Some R"
    and C: "broadcast_dim (ncols action) (ncols mean) = Some C"
    and lpe: "lp = map (\<lambda>i. \<Sum>j<C. - ((elem action i j - elem mean i j)\<^sup>2)
                                    / (2 * (exp (elem ls i j))\<^sup>2)
                                  - ln (exp (elem ls i j)) - ln (sqrt (2 * pi)))
                     [0..<R]"
    unfolding lp by blast
  have ente: "ent = map (\<lambda>i. \<Sum>j<ncols mean. 1 / 2 + 1 / 2 * ln (2 * pi) + ln (exp (rows ls ! i ! j)))
                      [0..<nrows mean]"
    unfolding ent pp by (rule Normal_entropy_rows[OF E(2) E(3)])
  have conf: "length lp = nrows mean \<and> length ent = nrows mean
             \<and> (\<forall>i<nrows mean.
                  lp ! i = (\<Sum>j<ncols mean.
                     - ((rows action ! i ! j - rows mean ! i ! j)\<^sup>2)
                       / (2 * (exp (data (heap st (actor_logstd self)) ! (if D = 1 then 0 else j)))\<^sup>2)
                     - ln (exp (data (heap st (actor_logstd self)) ! (if D = 1 then 0 else j)))
                     - ln (sqrt (2 * pi)))
                \<and> ent ! i = (\<Sum>j<ncols mean.
                     1 / 2 + 1 / 2 * ln (2 * pi)
                     + ln (exp (data (heap st (actor_logstd self)) ! (if D = 1 then 0 else j)))))"
    if H: "shape (heap st (actor_logstd self)) = [1, D]
                 \<and> nrows action = nrows mean \<and> ncols action = ncols mean" for D
  proof -
    from H have sh: "shape (heap st (actor_logstd self)) = [1, D]"
      and na: "nrows action = nrows mean" and ca: "ncols action = ncols mean" by simp_all
    have RC: "R = nrows mean" "C = ncols mean"
      using R C na ca by (simp_all add: broadcast_dim_def)
    have el: "elem action i j = rows action ! i ! j" "elem mean i j = rows mean ! i ! j"
      "elem ls i j = data (heap st (actor_logstd self)) ! (if D = 1 then 0 else j)"
      "rows ls ! i ! j = data (heap st (actor_logstd self)) ! (if D = 1 then 0 else j)"
      if "i < nrows mean" "j < ncols mean" for i j
      using that na ca E(1,2) E(4)[OF sh that] by (auto simp: elem_def)
    have 1: "length lp = nrows mean" "length ent = nrows mean"
      by (simp_all add: lpe ente RC)
    have 2: "lp ! i = (\<Sum>j<ncols mean.
                     - ((rows action ! i ! j - rows mean ! i ! j)\<^sup>2)
                       / (2 * (exp (data (heap st (actor_logstd self)) ! (if D = 1 then 0 else j)))\<^sup>2)
                     - ln (exp (data (heap st (actor_logstd self)) ! (if D = 1 then 0 else j)))
                     - ln (sqrt (2 * pi)))" if i: "i < nrows mean" for i
    proof -
      have "lp ! i = (\<Sum>j<ncols mean. - ((elem action i j - elem mean i j)\<^sup>2)
                                    / (2 * (exp (elem ls i j))\<^sup>2)
                                  - ln (exp (elem ls i j)) - ln (sqrt (2 * pi)))"
        using i by (simp add: lpe RC del: ln_exp)
      also have "\<dots> = (\<Sum>j<ncols mean.
                     - ((rows action ! i ! j - rows mean ! i ! j)\<^sup>2)
                       / (2 * (exp (data (heap st (actor_logstd self)) ! (if D = 1 then 0 else j)))\<^sup>2)
                     - ln (exp (data (heap st (actor_logstd self)) ! (if D = 1 then 0 else j)))
                     - ln (sqrt (2 * pi)))"
        by (rule sum.cong[OF refl]) (simp add: el[OF i] del: ln_exp)
      finally show ?thesis .
    qed
    have 3: "ent ! i = (\<Sum>j<ncols mean.
                     1 / 2 + 1 / 2 * ln (2 * pi)
                     + ln (exp (data (heap st (actor_logstd self)) ! (if D = 1 then 0 else j))))"
      if i: "i < nrows mean" for i
    proof -
      have "ent ! i = (\<Sum>j<ncols mean. 1 / 2 + 1 / 2 * ln (2 * pi) + ln (exp (rows ls ! i ! j)))"
        using i by (simp add: ente del: ln_exp)
      also have "\<dots> = (\<Sum>j<ncols mean.
                     1 / 2 + 1 / 2 * ln (2 * pi)
                     + ln (exp (data (heap st (actor_logstd self)) ! (if D = 1 then 0 else j))))"
        by (rule sum.cong[OF refl]) (simp add: el(4)[OF i] del: ln_exp)
      finally show ?thesis .
    qed
    from 1 2 3 show ?thesis by simp
  qed
  show ?thesis
    apply (rule conjI, fact a(1), rule conjI, fact a(2))
    apply (rule exI[of _ mean], rule exI[of _ ls], rule exI[of _ R], rule exI[of _ C])
    apply (rule conjI, fact mean, rule conjI, fact e, rule conjI, fact R, rule conjI, fact C)
    apply (rule conjI, fact lpe, rule conjI, fact ente)
    using conf by blast
qed

theorem supplied_action_returned_witness:
  "\<exists>lp ent v. get_action_and_value ag0 x0 (Some a0) st0 = Inr ((a0, lp, ent, v), st0)
     \<and> lp = [- (1 / 2) - ln (sqrt (2 * pi)), - ln (sqrt (2 * pi))]
     \<and> ent = [1 / 2 + 1 / 2 * ln (2 * pi), 1 / 2 + 1 / 2 * ln (2 * pi)]"
proof -
  have "Some a0 = None \<or> (\<exists>b. Some a0 = Some b \<and> has_shape b 2 1)"
    using a0_shape by simp
  from get_action_and_value_well_shaped[OF ag0_well_shaped x0_shape this]
  obtain a lp ent v st' where
    r: "get_action_and_value ag0 x0 (Some a0) st0 = Inr ((a, lp, ent, v), st')" by blast
  from supplied_action_returned[OF r] obtain mean where
    a: "a = a0" "st' = st0"
    and mean: "Sequential_forward (actor_mean ag0) x0 st0 = Inr mean"
    and conf: "\<forall>D. shape (heap st0 (actor_logstd ag0)) = [1, D]
                 \<and> nrows a0 = nrows mean \<and> ncols a0 = ncols mean \<longrightarrow>
               length lp = nrows mean \<and> length ent = nrows mean
             \<and> (\<forall>i<nrows mean.
                  lp ! i = (\<Sum>j<ncols mean.
                     - ((rows a0 ! i ! j - rows mean ! i ! j)\<^sup>2)
                       / (2 * (exp (data (heap st0 (actor_logstd ag0)) ! (if D = 1 then 0 else j)))\<^sup>2)
                     - ln (exp (data (heap st0 (actor_logstd ag0)) ! (if D = 1 then 0 else j)))
                     - ln (sqrt (2 * pi)))
                \<and> ent ! i = (\<Sum>j<ncols mean.
                     1 / 2 + 1 / 2 * ln (2 * pi)
                     + ln (exp (data (heap st0 (actor_logstd ag0)) ! (if D = 1 then 0 else j)))))"
    by blast
  have m: "mean = \<lparr>ncols = 1, rows = [[2], [4]]\<rparr>"
    using mean mean_ag0 by simp
  have sh: "shape (heap st0 (actor_logstd ag0)) = [1, 1]"
    and d: "data (heap st0 (actor_logstd ag0)) ! 0 = 0"
    by (simp_all add: ag0_def st0_def heap0_def)
  have "shape (heap st0 (actor_logstd ag0)) = [1, 1]
                 \<and> nrows a0 = nrows mean \<and> ncols a0 = ncols mean"
    by (simp add: sh m a0_def)
  with conf have c: "length lp = nrows mean \<and> length ent = nrows mean
             \<and> (\<forall>i<nrows mean.
                  lp ! i = (\<Sum>j<ncols mean.
                     - ((rows a0 ! i ! j - rows mean ! i ! j)\<^sup>2)
                       / (2 * (exp (data (heap st0 (actor_logstd ag0)) ! (if (1::nat) = 1 then 0 else j)))\<^sup>2)
                     - ln (exp (data (heap st0 (actor_logstd ag0)) ! (if (1::nat) = 1 then 0 else j)))
                     - ln (sqrt (2 * pi)))
                \<and> ent ! i = (\<Sum>j<ncols mean.
                     1 / 2 + 1 / 2 * ln (2 * pi)
                     + ln (exp (data (heap st0 (actor_logstd ag0)) ! (if (1::nat) = 1 then 0 else j)))))"
    by blast
  have len: "length lp = 2" "length ent = 2" using c by (simp_all add: m)
  have l0: "lp ! 0 = - (1 / 2) - ln (sqrt (2 * pi))" and e0: "ent ! 0 = 1 / 2 + 1 / 2 * ln (2 * pi)"
    using c by (simp_all add: m a0_def d)
  have l1: "lp ! 1 = - ln (sqrt (2 * pi))" and e1: "ent ! 1 = 1 / 2 + 1 / 2 * ln (2 * pi)"
    using c by (simp_all add: m a0_def d)
  have "lp = [- (1 / 2) - ln (sqrt (2 * pi)), - ln (sqrt (2 * pi))]"
    by (rule list2_eq[OF len(1) l0 l1])
  moreover have "ent = [1 / 2 + 1 / 2 * ln (2 * pi), 1 / 2 + 1 / 2 * ln (2 * pi)]"
    by (rule list2_eq[OF len(2) e0 e1])
  ultimately show ?thesis using r a by blast
qed

section \<open>The assertion on the action space\<close>

lemma sample_layers_error: "sample_layers cs st = Inl e \<Longrightarrow> e = IndexError"
proof (induction cs arbitrary: st)
  case Nil
  then show ?case by simp
next
  case (Cons c cs)
  have "sample_component c st = Inl e \<Longrightarrow> e = IndexError"
    by (induction c st rule: sample_component.induct)
       (auto simp: construct_vanilla_layer_def Let_def split: prod.splits sum.splits if_splits)
  with Cons show ?case by (auto split: sum.splits)
qed

lemma Agent_init_error: "Agent_init env st = Inl e \<Longrightarrow> e = TypeError"
  by (auto simp: Agent_init_def np_prod_def Let_def split: sum.splits prod.splits if_splits)

lemma BayesianAgent_init_error: "BayesianAgent_init env n st = Inl e \<Longrightarrow> e = TypeError"
  by (auto simp: BayesianAgent_init_def np_prod_def Let_def split: sum.splits prod.splits if_splits)

lemma sample_vanilla_agent_error:
  "sample_vanilla_agent self st = Inl e \<Longrightarrow> e = IndexError \<or> e = TypeError"
  by (auto simp: sample_vanilla_agent_def SampledAgent_init_def Let_def
      split: sum.splits prod.splits dest: sample_layers_error Agent_init_error)

text \<open>
  Claim C9 (only continuous action spaces). When the action space is not a Box, the cell
  ends with the AssertionError and builds no agent; when it is a Box, the cell does not end
  with an AssertionError.
\<close>

theorem setup_cell_asserts_box:
  "(\<not> is_Box (action_space env) \<longrightarrow>
      setup_cell env st = Inl (AssertionError ''only continuous action space is supported''))
   \<and> (is_Box (action_space env) \<longrightarrow> (\<forall>msg. setup_cell env st \<noteq> Inl (AssertionError msg)))"
  by (auto simp: setup_cell_def Let_def split: sum.splits
      dest: BayesianAgent_init_error sample_vanilla_agent_error)

theorem setup_cell_asserts_box_witness:
  "\<not> is_Box (action_space env_discrete)
   \<and> setup_cell env_discrete st0 = Inl (AssertionError ''only continuous action space is supported'')
   \<and> is_Box (action_space env48)
   \<and> setup_cell env48 st0 \<noteq> Inl (AssertionError ''only continuous action space is supported'')"
proof -
  have a: "\<not> is_Box (action_space env_discrete)" by (simp add: env_discrete_def)
  have b: "is_Box (action_space env48)" by (simp add: env48_def)
  from setup_cell_asserts_box[of env_discrete st0] setup_cell_asserts_box[of env48 st0] a b
  show ?thesis by blast
qed

end
